theory Spec2Isabelle
  imports Complex_Main
begin

section \<open>Numbers, exceptions and verdicts\<close>

text \<open>
  The movement core of trajtracker is Python 2 code (\<^verbatim>\<open>from __future__ import division\<close>)
  working on numbers. Finite numbers are modelled as \<^typ>\<open>real\<close>, without the rounding
  of IEEE doubles, so that no statement below is about the last digit of a computed
  value; coordinates and times handed in by the caller are taken to be built-in Python
  numbers. A raised exception is
  the \<open>Inl\<close> branch of a sum, a returned value the \<open>Inr\<close> branch; a property that
  returns \<^verbatim>\<open>None\<close> returns \<open>Inr None\<close>.
\<close>

datatype error =
  InvalidStateError | ZeroDivisionError | IndexError | TypeError | ValueError | AttributeError

text \<open>
  Two kinds of number have to be told apart, because they divide differently:
  a built-in Python number raises \<^verbatim>\<open>ZeroDivisionError\<close> when divided by zero, whereas
  the \<^verbatim>\<open>numpy.float64\<close> that \<^verbatim>\<open>np.sqrt\<close> returns yields \<^verbatim>\<open>inf\<close>,
  \<^verbatim>\<open>-inf\<close> or \<^verbatim>\<open>nan\<close> (with a warning only). Adding a Python number and a numpy
  float gives a numpy float.
\<close>

datatype number = PyNum real | NpFloat real

fun to_real :: "number \<Rightarrow> real" where
  "to_real (PyNum a) = a"
| "to_real (NpFloat a) = a"

datatype pyfloat = Fin real | PosInf | NegInf | NaN

fun py_add :: "number \<Rightarrow> number \<Rightarrow> number" where
  "py_add (PyNum a) (PyNum b) = PyNum (a + b)"
| "py_add a b = NpFloat (to_real a + to_real b)"

definition py_sum :: "number list \<Rightarrow> number" where
  \<comment> \<open>Python's \<^verbatim>\<open>sum\<close>: a left fold that starts from the integer 0.\<close>
  "py_sum ns = foldl py_add (PyNum 0) ns"

fun py_div :: "number \<Rightarrow> real \<Rightarrow> error + pyfloat" where
  "py_div (PyNum a) d = (if d = 0 then Inl ZeroDivisionError else Inr (Fin (a / d)))"
| "py_div (NpFloat a) d =
     (if d = 0 then Inr (if a = 0 then NaN else if 0 < a then PosInf else NegInf)
      else Inr (Fin (a / d)))"

text \<open>
  Comparison of a speed with a bound, as Python 2 evaluates \<^verbatim>\<open>speed < bound\<close> and
  \<^verbatim>\<open>speed > bound\<close>: \<^verbatim>\<open>None\<close> is smaller than every number, \<^verbatim>\<open>nan\<close> compares
  false with everything.
\<close>

fun py_lt :: "pyfloat option \<Rightarrow> real \<Rightarrow> bool" where
  "py_lt None b = True"
| "py_lt (Some (Fin a)) b = (a < b)"
| "py_lt (Some PosInf) b = False"
| "py_lt (Some NegInf) b = True"
| "py_lt (Some NaN) b = False"

fun py_gt :: "pyfloat option \<Rightarrow> real \<Rightarrow> bool" where
  "py_gt None b = False"
| "py_gt (Some (Fin a)) b = (a > b)"
| "py_gt (Some PosInf) b = True"
| "py_gt (Some NegInf) b = False"
| "py_gt (Some NaN) b = False"

text \<open>
  Modelled from the spec: \<^verbatim>\<open>trajtracker.validators.create_experiment_error\<close> is not among
  the sources. Following the spec's verdict type, a failure is a value carrying an error
  code, a message and a mapping from argument names to numbers; a validator that passes
  returns \<^verbatim>\<open>None\<close>.
\<close>

datatype ExperimentError =
  ExperimentError (err_code: string) (message: string) (err_args: "(string \<times> pyfloat option) list")

definition create_experiment_error ::
  "string \<Rightarrow> string \<Rightarrow> (string \<times> pyfloat option) list \<Rightarrow> ExperimentError option" where
  "create_experiment_error code msg args = Some (ExperimentError code msg args)"


section \<open>SpeedMonitor\<close>

text \<open>
  A stored point is the tuple \<^verbatim>\<open>(x_coord, y_coord, time, distance)\<close>; \<open>px\<close>, \<open>py\<close>,
  \<open>pt\<close> and \<open>pd\<close> read its components 0 to 3. The distance is the integer 0 for the
  first point and the numpy float returned by \<^verbatim>\<open>np.sqrt\<close> for every later one.
\<close>

datatype sample = Sample (px: real) (py: real) (pt: real) (pd: number)

record SpeedMonitor =
  units_per_mm :: real
  calculation_interval :: real
  recent_points :: "sample list"
  pre_recent_point :: "sample option"
  time0 :: "real option"

definition SpeedMonitor_reset :: "real option \<Rightarrow> SpeedMonitor \<Rightarrow> SpeedMonitor" where
  "SpeedMonitor_reset t m = m\<lparr>recent_points := [], pre_recent_point := None, time0 := t\<rparr>"

text \<open>
  Modelled from the spec: \<^verbatim>\<open>trajtracker._utils\<close> (\<^verbatim>\<open>validate_attr_positive\<close>,
  \<^verbatim>\<open>validate_attr_not_negative\<close>) is not among the sources. The range assertions of the
  property setters are taken to do what their names and the setters' docstrings say:
  reject a value that is not positive (not non-negative) with \<^verbatim>\<open>ValueError\<close>, and accept
  \<^verbatim>\<open>None\<close> where the setter allows it.
\<close>

definition validate_attr_positive :: "real \<Rightarrow> error + unit" where
  "validate_attr_positive v = (if v \<le> 0 then Inl ValueError else Inr ())"

definition validate_attr_not_negative :: "real \<Rightarrow> error + unit" where
  "validate_attr_not_negative v = (if v < 0 then Inl ValueError else Inr ())"

definition SpeedMonitor_init :: "real \<Rightarrow> real \<Rightarrow> error + SpeedMonitor" where
  "SpeedMonitor_init u ci =
     (case validate_attr_positive u of
        Inl e \<Rightarrow> Inl e
      | Inr _ \<Rightarrow>
          (case validate_attr_not_negative ci of
             Inl e \<Rightarrow> Inl e
           | Inr _ \<Rightarrow>
               Inr (SpeedMonitor_reset None
                 \<lparr>units_per_mm = u, calculation_interval = ci, recent_points = [],
                  pre_recent_point = None, time0 = None\<rparr>)))"

text \<open>
  A call \<^verbatim>\<open>SpeedMonitor(a1, ..., an)\<close> with positional arguments: the constructor has two
  required parameters (\<^verbatim>\<open>units_per_mm\<close>, \<^verbatim>\<open>calculation_interval\<close>) and no defaults, so
  Python raises \<^verbatim>\<open>TypeError\<close> before the body runs unless exactly two are given.
\<close>

definition SpeedMonitor_call :: "real list \<Rightarrow> error + SpeedMonitor" where
  "SpeedMonitor_call args =
     (case args of [u, ci] \<Rightarrow> SpeedMonitor_init u ci | _ \<Rightarrow> Inl TypeError)"

definition prev_time :: "SpeedMonitor \<Rightarrow> real option" where
  "prev_time m =
     (if length (recent_points m) > 0 then Some (pt (last (recent_points m))) else time0 m)"

definition validate_time :: "SpeedMonitor \<Rightarrow> real \<Rightarrow> error + unit" where
  "validate_time m t =
     (case prev_time m of
        None \<Rightarrow> Inr ()
      | Some p \<Rightarrow> if p > t then Inl InvalidStateError else Inr ())"

definition older_than_threshold :: "sample list \<Rightarrow> real \<Rightarrow> nat list" where
  \<comment> \<open>\<^verbatim>\<open>np.where([p[2] <= latest_good_time for p in recent_points])[0]\<close>\<close>
  "older_than_threshold ps latest_good_time =
     filter (\<lambda>i. pt (ps ! i) \<le> latest_good_time) [0..<length ps]"

definition remove_recent_points_older_than :: "real \<Rightarrow> SpeedMonitor \<Rightarrow> SpeedMonitor" where
  "remove_recent_points_older_than latest_good_time m =
     (let older = older_than_threshold (recent_points m) latest_good_time in
      if length older \<ge> 1 then
        m\<lparr>pre_recent_point := Some (recent_points m ! last older),
          recent_points := drop (last older + 1) (recent_points m)\<rparr>
      else m)"

text \<open>
  \<^verbatim>\<open>update_xyt\<close> returns the outcome of the call together with the monitor as the call
  leaves it, so that what an exception leaves behind is part of the model.
\<close>

definition SpeedMonitor_update_xyt ::
  "real \<Rightarrow> real \<Rightarrow> real \<Rightarrow> SpeedMonitor \<Rightarrow> (error + unit) \<times> SpeedMonitor" where
  "SpeedMonitor_update_xyt x_coord y_coord t m =
     (case validate_time m t of
        Inl e \<Rightarrow> (Inl e, m)
      | Inr _ \<Rightarrow>
          (let m1 = (if time0 m = None then m\<lparr>time0 := Some t\<rparr> else m) in
           if units_per_mm m1 = 0 then (Inl ZeroDivisionError, m1)
           else
             (let x = x_coord / units_per_mm m1;
                  y = y_coord / units_per_mm m1;
                  distance =
                    (if length (recent_points m1) > 0 then
                       (let last_loc = last (recent_points m1) in
                        NpFloat (sqrt ((x - px last_loc)\<^sup>2 + (y - py last_loc)\<^sup>2)))
                     else PyNum 0);
                  m2 = remove_recent_points_older_than (t - calculation_interval m1) m1
              in (Inr (), m2\<lparr>recent_points := recent_points m2 @ [Sample x y t distance]\<rparr>))))"

definition time_in_trial :: "SpeedMonitor \<Rightarrow> real option" where
  "time_in_trial m =
     (case time0 m of
        None \<Rightarrow> None
      | Some t0 \<Rightarrow> if length (recent_points m) = 0 then None
                  else Some (pt (last (recent_points m)) - t0))"

definition last_calculation_interval :: "SpeedMonitor \<Rightarrow> error + real option" where
  "last_calculation_interval m =
     (case pre_recent_point m of
        None \<Rightarrow> Inr None
      | Some p \<Rightarrow>
          (case recent_points m of
             [] \<Rightarrow> Inl IndexError
           | _ # _ \<Rightarrow> Inr (Some (pt (last (recent_points m)) - pt p))))"

definition divide_by_interval :: "number \<Rightarrow> SpeedMonitor \<Rightarrow> error + pyfloat option" where
  \<comment> \<open>\<^verbatim>\<open>numerator / self.last_calculation_interval\<close>\<close>
  "divide_by_interval numerator m =
     (case last_calculation_interval m of
        Inl e \<Rightarrow> Inl e
      | Inr None \<Rightarrow> Inl TypeError
      | Inr (Some d) \<Rightarrow> map_sum id Some (py_div numerator d))"

definition xspeed :: "SpeedMonitor \<Rightarrow> error + pyfloat option" where
  "xspeed m =
     (case pre_recent_point m of
        None \<Rightarrow> Inr None
      | Some p \<Rightarrow>
          (case recent_points m of
             [] \<Rightarrow> Inl IndexError
           | _ # _ \<Rightarrow>
               (let y1 = px p; y2 = px (last (recent_points m)) in
                divide_by_interval (PyNum (y2 - y1)) m)))"

definition yspeed :: "SpeedMonitor \<Rightarrow> error + pyfloat option" where
  "yspeed m =
     (case pre_recent_point m of
        None \<Rightarrow> Inr None
      | Some p \<Rightarrow>
          (case recent_points m of
             [] \<Rightarrow> Inl IndexError
           | _ # _ \<Rightarrow>
               (let y1 = py p; y2 = py (last (recent_points m)) in
                divide_by_interval (PyNum (y2 - y1)) m)))"

definition xyspeed :: "SpeedMonitor \<Rightarrow> error + pyfloat option" where
  "xyspeed m =
     (case pre_recent_point m of
        None \<Rightarrow> Inr None
      | Some p \<Rightarrow>
          (let distance = py_sum (map pd (recent_points m)) in
           divide_by_interval distance m))"

text \<open>A sequence of calls stops at the first exception, which the caller sees.\<close>

fun run_updates :: "SpeedMonitor \<Rightarrow> (real \<times> real \<times> real) list \<Rightarrow> error + SpeedMonitor" where
  "run_updates m [] = Inr m"
| "run_updates m ((x, y, t) # rest) =
     (case SpeedMonitor_update_xyt x y t m of
        (Inl e, _) \<Rightarrow> Inl e
      | (Inr _, m') \<Rightarrow> run_updates m' rest)"


section \<open>InstantaneousSpeedValidator\<close>

datatype ValidationAxis = AxisX | AxisY | AxisXY

record EnabledDisabledObj =
  enabled :: bool

record InstantaneousSpeedValidator = EnabledDisabledObj +
  axis :: ValidationAxis
  min_speed :: "real option"
  max_speed :: "real option"
  grace_period :: real
  speed_monitor :: SpeedMonitor

definition err_too_slow :: string where
  "err_too_slow = ''TooSlowInstantaneous''"

definition err_too_fast :: string where
  "err_too_fast = ''TooFast''"

definition arg_speed :: string where
  "arg_speed = ''speed''"

definition validate_opt_positive :: "real option \<Rightarrow> error + unit" where
  \<comment> \<open>the setters of \<^verbatim>\<open>min_speed\<close> and \<^verbatim>\<open>max_speed\<close>: \<^verbatim>\<open>None\<close> is valid\<close>
  "validate_opt_positive v = (case v of None \<Rightarrow> Inr () | Some b \<Rightarrow> validate_attr_positive b)"

definition InstantaneousSpeedValidator_reset ::
  "real option \<Rightarrow> InstantaneousSpeedValidator \<Rightarrow> InstantaneousSpeedValidator" where
  "InstantaneousSpeedValidator_reset t v =
     v\<lparr>speed_monitor := SpeedMonitor_reset t (speed_monitor v)\<rparr>"

text \<open>
  The constructor. \<^verbatim>\<open>movement_monitor=None\<close> is the default; the constructor then calls
  \<^verbatim>\<open>SpeedMonitor(calculation_interval)\<close>, with one positional argument.
\<close>

definition InstantaneousSpeedValidator_init ::
  "ValidationAxis \<Rightarrow> bool \<Rightarrow> real option \<Rightarrow> real option \<Rightarrow> real \<Rightarrow> real \<Rightarrow>
   SpeedMonitor option \<Rightarrow> error + InstantaneousSpeedValidator" where
  "InstantaneousSpeedValidator_init ax en min_sp max_sp grace calc_interval movement_monitor =
     (case (case movement_monitor of
              None \<Rightarrow> SpeedMonitor_call [calc_interval]
            | Some mm \<Rightarrow> Inr mm) of
        Inl e \<Rightarrow> Inl e
      | Inr mon \<Rightarrow>
          (case validate_opt_positive min_sp of
             Inl e \<Rightarrow> Inl e
           | Inr _ \<Rightarrow>
          (case validate_opt_positive max_sp of
             Inl e \<Rightarrow> Inl e
           | Inr _ \<Rightarrow>
          (case validate_attr_not_negative grace of
             Inl e \<Rightarrow> Inl e
           | Inr _ \<Rightarrow>
          (case validate_attr_not_negative calc_interval of
             Inl e \<Rightarrow> Inl e
           | Inr _ \<Rightarrow>
               Inr (InstantaneousSpeedValidator_reset None
                 \<lparr>enabled = en, axis = ax, min_speed = min_sp, max_speed = max_sp,
                  grace_period = grace,
                  speed_monitor = mon\<lparr>calculation_interval := calc_interval\<rparr>\<rparr>))))))"

definition selected_speed :: "InstantaneousSpeedValidator \<Rightarrow> error + pyfloat option" where
  "selected_speed v =
     (case axis v of
        AxisX \<Rightarrow> xspeed (speed_monitor v)
      | AxisY \<Rightarrow> yspeed (speed_monitor v)
      | AxisXY \<Rightarrow> xyspeed (speed_monitor v))"

definition compare_speed ::
  "InstantaneousSpeedValidator \<Rightarrow> pyfloat option \<Rightarrow> ExperimentError option" where
  "compare_speed v speed =
     (if min_speed v \<noteq> None \<and> py_lt speed (the (min_speed v)) then
        create_experiment_error err_too_slow ''You moved too slowly'' [(arg_speed, speed)]
      else if max_speed v \<noteq> None \<and> py_gt speed (the (max_speed v)) then
        create_experiment_error err_too_fast ''You moved too fast'' [(arg_speed, speed)]
      else None)"

definition calculate_speed :: "InstantaneousSpeedValidator \<Rightarrow> error + ExperimentError option" where
  \<comment> \<open>the part of \<^verbatim>\<open>update_xyt\<close> after the monitor has been updated\<close>
  "calculate_speed v =
     (case time_in_trial (speed_monitor v) of
        None \<Rightarrow> Inr None
      | Some tt \<Rightarrow>
          if tt > grace_period v then
            (case last_calculation_interval (speed_monitor v) of
               Inl e \<Rightarrow> Inl e
             | Inr None \<Rightarrow> Inr None
             | Inr (Some _) \<Rightarrow>
                 (case selected_speed v of
                    Inl e \<Rightarrow> Inl e
                  | Inr speed \<Rightarrow> Inr (compare_speed v speed)))
          else Inr None)"

definition InstantaneousSpeedValidator_update_xyt ::
  "real \<Rightarrow> real \<Rightarrow> real \<Rightarrow> InstantaneousSpeedValidator \<Rightarrow>
   (error + ExperimentError option) \<times> InstantaneousSpeedValidator" where
  "InstantaneousSpeedValidator_update_xyt x_coord y_coord t v =
     (if \<not> enabled v then (Inr None, v)
      else
        (case SpeedMonitor_update_xyt x_coord y_coord t (speed_monitor v) of
           (Inl e, mon) \<Rightarrow> (Inl e, v\<lparr>speed_monitor := mon\<rparr>)
         | (Inr _, mon) \<Rightarrow>
             (let v' = v\<lparr>speed_monitor := mon\<rparr> in (calculate_speed v', v'))))"



section \<open>NumberLine: detecting when the line is touched\<close>

text \<open>
  Only the attributes that \<^verbatim>\<open>reset\<close> and \<^verbatim>\<open>update_xyt\<close> read or write are kept.
  \<^verbatim>\<open>update_xyt\<close> accepts integer coordinates only (it validates their type); the line's
  position, its length and the touch distance are numbers. A feedback stimulus is an
  object of the caller's: the model keeps whether it has a \<^verbatim>\<open>visible\<close> attribute, and the
  position and visibility that \<^verbatim>\<open>_show_feedback_stim\<close> assigns.
\<close>

datatype Orientation = Horizontal | Vertical

record FeedbackStim =
  has_visible :: bool
  stim_position :: "real \<times> real"
  stim_visible :: bool

record NumberLine =
  orientation :: Orientation
  mid_x :: real
  mid_y :: real
  line_length :: real
  min_value :: real
  max_value :: real
  touch_directioned :: bool
  touch_distance :: real
  feedback_stim :: "FeedbackStim option"
  feedback_stim_offset :: "real \<times> real"
  last_mouse_coord :: "real option"
  last_touched_coord :: "real option"
  initial_mouse_dir :: "real option"

definition main_line_start :: "NumberLine \<Rightarrow> real \<times> real" where
  "main_line_start nl =
     (if orientation nl = Horizontal then (- line_length nl / 2, 0)
      else (0, - line_length nl / 2))"

definition NumberLine_reset :: "real option \<Rightarrow> NumberLine \<Rightarrow> NumberLine" where
  \<comment> \<open>\<^verbatim>\<open>time0\<close> is ignored\<close>
  "NumberLine_reset t nl =
     nl\<lparr>last_mouse_coord := None, last_touched_coord := None, initial_mouse_dir := None\<rparr>"

definition touched :: "NumberLine \<Rightarrow> bool" where
  "touched nl = (last_touched_coord nl \<noteq> None)"

definition last_touched_value :: "NumberLine \<Rightarrow> error + real option" where
  "last_touched_value nl =
     (case last_touched_coord nl of
        None \<Rightarrow> Inr None
      | Some c \<Rightarrow>
          if line_length nl = 0 then Inl ZeroDivisionError
          else
            (let pos01 = c / line_length nl + 0.5 in
             Inr (Some (pos01 * (max_value nl - min_value nl) + min_value nl))))"

definition show_feedback_stim :: "NumberLine \<Rightarrow> (error + unit) \<times> NumberLine" where
  "show_feedback_stim nl =
     (case feedback_stim nl of
        None \<Rightarrow> (Inr (), nl)
      | Some stim \<Rightarrow>
          if \<not> has_visible stim then (Inl InvalidStateError, nl)
          else
            (let c = the (last_touched_coord nl);
                 fb_stim_coord =
                   (if orientation nl = Horizontal then (mid_x nl + c, mid_y nl)
                    else (mid_x nl, mid_y nl + c));
                 fb_stim_coord' =
                   (fst fb_stim_coord + fst (feedback_stim_offset nl),
                    snd fb_stim_coord + snd (feedback_stim_offset nl))
             in (Inr (),
                 nl\<lparr>feedback_stim :=
                      Some (stim\<lparr>stim_position := fb_stim_coord', stim_visible := True\<rparr>)\<rparr>)))"

text \<open>
  \<^verbatim>\<open>update_xyt\<close>. When the line is touched, the coordinate is stored first; then the
  feedback stimulus is shown, and the log message is formatted, which evaluates
  \<^verbatim>\<open>last_touched_value\<close>. Either of the two may raise, after the touch has been stored.
\<close>

definition NumberLine_update_xyt ::
  "int \<Rightarrow> int \<Rightarrow> NumberLine \<Rightarrow> (error + unit) \<times> NumberLine" where
  "NumberLine_update_xyt x_coord y_coord nl =
     (if last_touched_coord nl \<noteq> None then (Inr (), nl)
      else
        (let (mouse_coord, line_coord, touch_coord) =
               (if orientation nl = Horizontal then
                  (real_of_int y_coord, snd (main_line_start nl) + mid_y nl,
                   real_of_int x_coord - mid_x nl)
                else
                  (real_of_int x_coord, fst (main_line_start nl) + mid_x nl,
                   real_of_int y_coord - mid_y nl));
             distance = line_coord - mouse_coord;
             (is_touched, nl1) =
               (if \<not> touch_directioned nl then (\<bar>distance\<bar> \<le> touch_distance nl, nl)
                else
                  (case initial_mouse_dir nl of
                     None \<Rightarrow> (False, nl\<lparr>initial_mouse_dir := Some (sgn distance)\<rparr>)
                   | Some d \<Rightarrow> (distance * d < touch_distance nl, nl)))
         in if is_touched then
              (let nl2 = nl1\<lparr>last_touched_coord := Some touch_coord\<rparr> in
               case show_feedback_stim nl2 of
                 (Inl e, nl3) \<Rightarrow> (Inl e, nl3)
               | (Inr _, nl3) \<Rightarrow>
                   (case last_touched_value nl3 of
                      Inl e \<Rightarrow> (Inl e, nl3)
                    | Inr _ \<Rightarrow> (Inr (), nl3)))
            else (Inr (), nl1)))"

text \<open>
  The signed perpendicular distance of a sample from the line, in the words of the
  specification: positive when the pointer's coordinate is below the line's.
\<close>

definition perpendicular_offset :: "NumberLine \<Rightarrow> int \<Rightarrow> int \<Rightarrow> real" where
  "perpendicular_offset nl x_coord y_coord =
     (if orientation nl = Horizontal then mid_y nl - real_of_int y_coord
      else mid_x nl - real_of_int x_coord)"


section \<open>MoveByGradientValidator\<close>

text \<open>
  The validator reads its colours from a \<^verbatim>\<open>LocationColorMap\<close>, which is not among the
  sources: the field \<open>get_color_at\<close> stands for \<^verbatim>\<open>self._lcm.get_color_at\<close>, a lookup
  that returns a number or \<^verbatim>\<open>None\<close>.

  The attributes \<^verbatim>\<open>_min_available_color\<close> and \<^verbatim>\<open>_max_available_color\<close> exist only once
  \<^verbatim>\<open>_calc_min_max_colors\<close> has assigned them, and that method is called by the setter
  of \<^verbatim>\<open>single_color\<close> alone. The constructor assigns \<^verbatim>\<open>self.color_filter = None\<close>, an
  attribute that nothing reads, and never \<^verbatim>\<open>single_color\<close>. The two fields are therefore
  optional twice over: \<open>None\<close> is an attribute that was never assigned, whose read raises
  \<^verbatim>\<open>AttributeError\<close>; \<open>Some None\<close> is the value \<^verbatim>\<open>None\<close> (no colour available);
  \<open>Some (Some c)\<close> is a colour.
\<close>

record MoveByGradientValidator = EnabledDisabledObj +
  get_color_at :: "real \<Rightarrow> real \<Rightarrow> real option"
  rgb_should_ascend :: bool
  max_valid_back_movement :: real
  cyclic :: bool
  color_filter :: "string option"
  last_color :: "real option"
  min_available_color :: "real option option"
  max_available_color :: "real option option"

definition cyclic_ratio :: real where
  "cyclic_ratio = 5"

definition err_gradient :: string where
  "err_gradient = ''GradientViolation''"

definition MoveByGradientValidator_reset ::
  "real option \<Rightarrow> MoveByGradientValidator \<Rightarrow> MoveByGradientValidator" where
  "MoveByGradientValidator_reset t v = v\<lparr>last_color := None\<rparr>"

text \<open>
  The constructor: the colour map built from \<^verbatim>\<open>image\<close> and \<^verbatim>\<open>position\<close> is the lookup
  handed in; then the setters of \<^verbatim>\<open>rgb_should_ascend\<close>, \<^verbatim>\<open>max_valid_back_movement\<close>
  (not negative) and \<^verbatim>\<open>cyclic\<close>, the assignment of \<^verbatim>\<open>color_filter\<close>, and \<^verbatim>\<open>reset\<close>.
\<close>

definition MoveByGradientValidator_init ::
  "(real \<Rightarrow> real \<Rightarrow> real option) \<Rightarrow> bool \<Rightarrow> real \<Rightarrow> bool \<Rightarrow> bool \<Rightarrow>
   error + MoveByGradientValidator" where
  "MoveByGradientValidator_init lookup ascend back cyc en =
     (case validate_attr_not_negative back of
        Inl e \<Rightarrow> Inl e
      | Inr _ \<Rightarrow>
          Inr (MoveByGradientValidator_reset None
            \<lparr>enabled = en, get_color_at = lookup, rgb_should_ascend = ascend,
             max_valid_back_movement = back, cyclic = cyc, color_filter = None,
             last_color = None, min_available_color = None, max_available_color = None\<rparr>))"

definition calc_min_max_colors ::
  "real option list \<Rightarrow> MoveByGradientValidator \<Rightarrow> MoveByGradientValidator" where
  \<comment> \<open>the argument is \<^verbatim>\<open>[mapping_func(color) for color in self._lcm.available_colors]\<close>\<close>
  "calc_min_max_colors mapped v =
     (let colors = map the (filter (\<lambda>c. c \<noteq> None) mapped) in
      v\<lparr>min_available_color :=
          Some (if length colors = 0 then None else Some (Min (set colors))),
        max_available_color :=
          Some (if length colors = 0 then None else Some (Max (set colors)))\<rparr>)"

definition MoveByGradientValidator_update_xyt ::
  "real \<Rightarrow> real \<Rightarrow> MoveByGradientValidator \<Rightarrow>
   (error + ExperimentError option) \<times> MoveByGradientValidator" where
  "MoveByGradientValidator_update_xyt x_coord y_coord v =
     (if \<not> enabled v then (Inr None, v)
      else
        (case get_color_at v x_coord y_coord of
           None \<Rightarrow> (Inr None, v\<lparr>last_color := None\<rparr>)
         | Some color \<Rightarrow>
             (case last_color v of
                None \<Rightarrow> (Inr None, v\<lparr>last_color := Some color\<rparr>)
              | Some previous \<Rightarrow>
                  (let expected_direction = (if rgb_should_ascend v then 1 else - 1);
                       rgb_delta = (color - previous) * expected_direction;
                       violation =
                         (Inr (create_experiment_error err_gradient
                                 ''You moved in an invalid direction'' []), v)
                   in if rgb_delta \<ge> 0 then (Inr None, v\<lparr>last_color := Some color\<rparr>)
                      else if rgb_delta \<ge> - max_valid_back_movement v then (Inr None, v)
                      else if cyclic v then
                        (case min_available_color v of
                           None \<Rightarrow> (Inl AttributeError, v)
                         | Some None \<Rightarrow> violation
                         | Some (Some lo) \<Rightarrow>
                             (case max_available_color v of
                                None \<Rightarrow> (Inl AttributeError, v)
                              | Some None \<Rightarrow> (Inl TypeError, v)
                              | Some (Some hi) \<Rightarrow>
                                  (let range = hi - lo in
                                   if \<bar>rgb_delta\<bar> \<ge> cyclic_ratio * (range - \<bar>rgb_delta\<bar>) then
                                     (Inr None, v\<lparr>last_color := Some color\<rparr>)
                                   else violation)))
                      else violation))))"

text \<open>Successive calls; the list of verdicts stops at the first exception.\<close>

fun run_gradient ::
  "MoveByGradientValidator \<Rightarrow> (real \<times> real) list \<Rightarrow> (error + ExperimentError option) list" where
  "run_gradient v [] = []"
| "run_gradient v ((x, y) # rest) =
     (case MoveByGradientValidator_update_xyt x y v of
        (Inl e, _) \<Rightarrow> [Inl e]
      | (Inr r, v') \<Rightarrow> Inr r # run_gradient v' rest)"

text \<open>The colour range of the image, known once both extremes are.\<close>

definition color_range :: "MoveByGradientValidator \<Rightarrow> real option" where
  "color_range v =
     (case (min_available_color v, max_available_color v) of
        (Some (Some lo), Some (Some hi)) \<Rightarrow> Some (hi - lo)
      | _ \<Rightarrow> None)"


section \<open>What a sequence of pushes evicts\<close>

text \<open>
  For the statements about eviction, the points that one call of
  \<^verbatim>\<open>_remove_recent_points_older_than\<close> drops from the list (the slice
  \<^verbatim>\<open>recent_points[:older[-1]+1]\<close>), and all the points dropped during a sequence of
  calls, oldest first. Nothing in the program computes these lists.
\<close>

definition evicted_points :: "real \<Rightarrow> SpeedMonitor \<Rightarrow> sample list" where
  "evicted_points latest_good_time m =
     (let older = older_than_threshold (recent_points m) latest_good_time in
      if length older \<ge> 1 then take (last older + 1) (recent_points m) else [])"

fun evicted_by :: "SpeedMonitor \<Rightarrow> (real \<times> real \<times> real) list \<Rightarrow> sample list" where
  "evicted_by m [] = []"
| "evicted_by m ((x, y, t) # rest) =
     (case SpeedMonitor_update_xyt x y t m of
        (Inl e, _) \<Rightarrow> []
      | (Inr _, m') \<Rightarrow> evicted_points (t - calculation_interval m) m @ evicted_by m' rest)"

text \<open>
  A path: every point but the first carries the Euclidean distance from the point before
  it, as a numpy float.
\<close>

fun path_ok :: "sample list \<Rightarrow> bool" where
  "path_ok (a # b # rest) =
     (pd b = NpFloat (sqrt ((px b - px a)\<^sup>2 + (py b - py a)\<^sup>2)) \<and> path_ok (b # rest))"
| "path_ok _ = True"


text \<open>
  The point that a call of \<^verbatim>\<open>update_xyt\<close> appends, and the invariant that ties the
  monitor to the points evicted so far: evicted and retained points together are the
  pushes in order, with non-decreasing times and each distance measured from the point
  before; the pre-window point is the last one evicted.
\<close>

definition stored :: "SpeedMonitor \<Rightarrow> real \<Rightarrow> real \<Rightarrow> real \<Rightarrow> sample" where
  "stored m x y t =
     Sample (x / units_per_mm m) (y / units_per_mm m) t
       (if recent_points m = [] then PyNum 0
        else NpFloat (sqrt ((x / units_per_mm m - px (last (recent_points m)))\<^sup>2 +
                            (y / units_per_mm m - py (last (recent_points m)))\<^sup>2)))"

definition history_inv :: "sample list \<Rightarrow> SpeedMonitor \<Rightarrow> bool" where
  "history_inv ev m \<longleftrightarrow>
     sorted (map pt (ev @ recent_points m)) \<and> path_ok (ev @ recent_points m) \<and>
     (recent_points m = [] \<longrightarrow> ev = []) \<and>
     pre_recent_point m = (if ev = [] then None else Some (last ev))"


section \<open>Concrete scenarios\<close>

text \<open>A monitor that holds one point, pushed at time 5 of a trial that started at time 5.\<close>

definition monitor_at_5 :: SpeedMonitor where
  "monitor_at_5 =
     \<lparr>units_per_mm = 1, calculation_interval = 0, recent_points = [Sample 0 0 5 (PyNum 0)],
      pre_recent_point = None, time0 = Some 5\<rparr>"



text \<open>
  A validator with \<^verbatim>\<open>grace_period = 2\<close> and \<^verbatim>\<open>min_speed = 1\<close> on the y axis, after its
  first sample \<open>(0, 0, 0)\<close>.
\<close>

definition grace_validator :: InstantaneousSpeedValidator where
  "grace_validator =
     \<lparr>enabled = True, axis = AxisY, min_speed = Some 1, max_speed = None, grace_period = 2,
      speed_monitor =
        \<lparr>units_per_mm = 1, calculation_interval = 0, recent_points = [Sample 0 0 0 (PyNum 0)],
         pre_recent_point = None, time0 = Some 0\<rparr>\<rparr>"


text \<open>
  A cyclic gradient validator on an image whose colours range over 0 to 255, ascending,
  tolerating a back movement of 10, that last sampled the colour 250. The image shows
  the colour 0 at \<open>x = 0\<close>, the colour 200 at \<open>x = 1\<close> and nothing elsewhere.
\<close>

definition gradient_validator :: MoveByGradientValidator where
  "gradient_validator =
     calc_min_max_colors [Some 0, None, Some 255]
       \<lparr>enabled = True,
        get_color_at = (\<lambda>x y. if x = 0 then Some 0 else if x = 1 then Some 200 else None),
        rgb_should_ascend = True, max_valid_back_movement = 10, cyclic = True,
        color_filter = None, last_color = Some 250,
        min_available_color = None, max_available_color = None\<rparr>"

text \<open>
  \<^verbatim>\<open>MoveByGradientValidator(image, cyclic=True)\<close> on an image that shows the colour 100
  at \<open>x = 0\<close> and the colour 50 elsewhere, updated at \<open>(0, 0)\<close> and then at \<open>(1, 0)\<close>:
  as the constructor leaves the validator, and after \<^verbatim>\<open>single_color\<close> has been set on an
  image whose colours range over 0 to 255.
\<close>

definition step_image :: "real \<Rightarrow> real \<Rightarrow> real option" where
  "step_image x y = (if x = 0 then Some 100 else Some 50)"

definition fresh_cyclic_verdicts :: "(error + ExperimentError option) list" where
  "fresh_cyclic_verdicts =
     (case MoveByGradientValidator_init step_image True 0 True True of
        Inl e \<Rightarrow> [Inl e]
      | Inr v \<Rightarrow> run_gradient v [(0, 0), (1, 0)])"

definition single_color_verdicts :: "(error + ExperimentError option) list" where
  "single_color_verdicts =
     (case MoveByGradientValidator_init step_image True 0 True True of
        Inl e \<Rightarrow> [Inl e]
      | Inr v \<Rightarrow> run_gradient (calc_min_max_colors [Some 0, Some 255] v) [(0, 0), (1, 0)])"

text \<open>
  A horizontal number line through the origin with directional locking, and the states
  it goes through on the samples \<open>(0, -100)\<close>, \<open>(0, -3)\<close> and \<open>(7, 2)\<close>; the same
  line with a touch distance of 5.
\<close>

definition line_0 :: NumberLine where
  "line_0 =
     \<lparr>orientation = Horizontal, mid_x = 0, mid_y = 0, line_length = 100, min_value = 0,
      max_value = 100, touch_directioned = True, touch_distance = 0, feedback_stim = None,
      feedback_stim_offset = (0, 0), last_mouse_coord = None, last_touched_coord = None,
      initial_mouse_dir = None\<rparr>"

definition line_0_first :: NumberLine where
  "line_0_first = snd (NumberLine_update_xyt 0 (- 100) (NumberLine_reset None line_0))"

definition line_0_second :: NumberLine where
  "line_0_second = snd (NumberLine_update_xyt 0 (- 3) line_0_first)"

definition line_0_third :: NumberLine where
  "line_0_third = snd (NumberLine_update_xyt 7 2 line_0_second)"

definition line_5 :: NumberLine where
  "line_5 = line_0\<lparr>touch_distance := 5\<rparr>"

definition line_5_first :: NumberLine where
  "line_5_first = snd (NumberLine_update_xyt 0 (- 100) (NumberLine_reset None line_5))"


text \<open>
  A monitor with \<^verbatim>\<open>units_per_mm = 1\<close> and \<^verbatim>\<open>calculation_interval = 2\<close>, reset without a
  start time, and the states it goes through on the pushes \<open>(0,0,0)\<close>, \<open>(3,0,2)\<close>,
  \<open>(3,4,3)\<close> and \<open>(3,4,6)\<close>: the second push evicts the first point, the third evicts
  nothing, the fourth evicts the second and the third point.
\<close>

definition window_monitor :: SpeedMonitor where
  "window_monitor =
     SpeedMonitor_reset None
       \<lparr>units_per_mm = 1, calculation_interval = 2, recent_points = [],
        pre_recent_point = None, time0 = None\<rparr>"

definition window_pushes :: "(real \<times> real \<times> real) list" where
  "window_pushes = [(0, 0, 0), (3, 0, 2), (3, 4, 3), (3, 4, 6)]"

definition window_after_1 :: SpeedMonitor where
  "window_after_1 = snd (SpeedMonitor_update_xyt 0 0 0 window_monitor)"

definition window_after_2 :: SpeedMonitor where
  "window_after_2 = snd (SpeedMonitor_update_xyt 3 0 2 window_after_1)"

definition window_after_3 :: SpeedMonitor where
  "window_after_3 = snd (SpeedMonitor_update_xyt 3 4 3 window_after_2)"

definition window_after_4 :: SpeedMonitor where
  "window_after_4 = snd (SpeedMonitor_update_xyt 3 4 6 window_after_3)"

text \<open>
  A monitor with \<^verbatim>\<open>calculation_interval = 0\<close>, and its state after two pushes that carry
  the same time.
\<close>

definition instant_monitor :: SpeedMonitor where
  "instant_monitor =
     SpeedMonitor_reset None
       \<lparr>units_per_mm = 1, calculation_interval = 0, recent_points = [],
        pre_recent_point = None, time0 = None\<rparr>"

definition instant_after_2 :: SpeedMonitor where
  "instant_after_2 =
     snd (SpeedMonitor_update_xyt 3 4 0 (snd (SpeedMonitor_update_xyt 0 0 0 instant_monitor)))"


section \<open>Properties of SpeedMonitor\<close>

lemmas monitor_defs = SpeedMonitor_update_xyt_def validate_time_def prev_time_def
  remove_recent_points_older_than_def older_than_threshold_def SpeedMonitor_reset_def
  time_in_trial_def last_calculation_interval_def divide_by_interval_def xspeed_def yspeed_def
  xyspeed_def py_sum_def SpeedMonitor_init_def validate_attr_positive_def
  validate_attr_not_negative_def SpeedMonitor_call_def

lemmas validator_defs = InstantaneousSpeedValidator_update_xyt_def calculate_speed_def
  compare_speed_def selected_speed_def create_experiment_error_def
  InstantaneousSpeedValidator_init_def InstantaneousSpeedValidator_reset_def
  validate_opt_positive_def

subsection \<open>Out-of-order time\<close>

text \<open>
  Claim C5. A call \<^verbatim>\<open>update_xyt(x, y, t)\<close> raises \<^verbatim>\<open>InvalidStateError\<close> (an exception,
  not a verdict) exactly when \<open>t\<close> is strictly smaller than the time of the last pushed
  point, or, when no point is held, strictly smaller than the reset time \<open>time0\<close>. When
  it raises, the monitor is left as it was. With a time that is not smaller, and
  \<^verbatim>\<open>units_per_mm\<close> not zero (the setter admits positive values only), the call
  completes.
\<close>

theorem update_xyt_out_of_order:
  "(fst (SpeedMonitor_update_xyt x y t m) = Inl InvalidStateError \<longleftrightarrow>
      (recent_points m \<noteq> [] \<and> t < pt (last (recent_points m))) \<or>
      (recent_points m = [] \<and> (\<exists>t0. time0 m = Some t0 \<and> t < t0)))
   \<and> (fst (SpeedMonitor_update_xyt x y t m) = Inl InvalidStateError \<longrightarrow>
        snd (SpeedMonitor_update_xyt x y t m) = m)
   \<and> (units_per_mm m \<noteq> 0 \<longrightarrow>
        (fst (SpeedMonitor_update_xyt x y t m) = Inr () \<longleftrightarrow>
          \<not> ((recent_points m \<noteq> [] \<and> t < pt (last (recent_points m))) \<or>
             (recent_points m = [] \<and> (\<exists>t0. time0 m = Some t0 \<and> t < t0)))))"
  by (auto simp: SpeedMonitor_update_xyt_def validate_time_def prev_time_def Let_def
      split: option.splits if_splits sum.splits)

theorem update_xyt_out_of_order_witness:
  "fst (SpeedMonitor_update_xyt 0 0 3 monitor_at_5) = Inl InvalidStateError
   \<and> snd (SpeedMonitor_update_xyt 0 0 3 monitor_at_5) = monitor_at_5
   \<and> fst (SpeedMonitor_update_xyt 0 0 5 monitor_at_5) = Inr ()"
  using update_xyt_out_of_order [of 0 0 3 monitor_at_5]
    update_xyt_out_of_order [of 0 0 5 monitor_at_5]
  by (simp add: monitor_at_5_def)

subsection \<open>One push: what is evicted, what is kept\<close>

lemma older_than_threshold_bound:
  "i \<in> set (older_than_threshold ps lgt) \<Longrightarrow> i < length ps"
  by (simp add: older_than_threshold_def)

lemma evicted_split:
  "evicted_points lgt m @ recent_points (remove_recent_points_older_than lgt m) = recent_points m"
  by (simp add: evicted_points_def remove_recent_points_older_than_def Let_def)

lemma evicted_pre:
  "pre_recent_point (remove_recent_points_older_than lgt m) =
     (if evicted_points lgt m = [] then pre_recent_point m
      else Some (last (evicted_points lgt m)))"
proof (cases "older_than_threshold (recent_points m) lgt = []")
  case True
  then show ?thesis
    by (simp add: evicted_points_def remove_recent_points_older_than_def)
next
  case False
  then have "last (older_than_threshold (recent_points m) lgt)
      \<in> set (older_than_threshold (recent_points m) lgt)"
    by simp
  then have k: "last (older_than_threshold (recent_points m) lgt) < length (recent_points m)"
    by (rule older_than_threshold_bound)
  then have ne: "recent_points m \<noteq> []" by auto
  from k have "last (take (Suc (last (older_than_threshold (recent_points m) lgt))) (recent_points m))
      = recent_points m ! last (older_than_threshold (recent_points m) lgt)"
    by (simp add: take_Suc_conv_app_nth)
  with False ne show ?thesis
    by (simp add: evicted_points_def remove_recent_points_older_than_def Let_def)
qed

lemma remove_frame:
  "units_per_mm (remove_recent_points_older_than lgt m) = units_per_mm m"
  "calculation_interval (remove_recent_points_older_than lgt m) = calculation_interval m"
  "time0 (remove_recent_points_older_than lgt m) = time0 m"
  by (simp_all add: remove_recent_points_older_than_def Let_def)

lemma update_xyt_step:
  assumes "SpeedMonitor_update_xyt x y t m = (Inr (), m')"
  shows "evicted_points (t - calculation_interval m) m @ recent_points m'
           = recent_points m @ [stored m x y t]"
    and "pre_recent_point m' =
           (if evicted_points (t - calculation_interval m) m = [] then pre_recent_point m
            else Some (last (evicted_points (t - calculation_interval m) m)))"
    and "units_per_mm m' = units_per_mm m"
    and "calculation_interval m' = calculation_interval m"
    and "time0 m' = (if time0 m = None then Some t else time0 m)"
    and "recent_points m \<noteq> [] \<Longrightarrow> pt (last (recent_points m)) \<le> t"
    and "units_per_mm m \<noteq> 0"
    and "recent_points m' \<noteq> []"
    and "last (recent_points m') = stored m x y t"
proof -
  let ?m1 = "if time0 m = None then m\<lparr>time0 := Some t\<rparr> else m"
  let ?m2 = "remove_recent_points_older_than (t - calculation_interval m) ?m1"
  from assms have vt: "validate_time m t = Inr ()" and u: "units_per_mm m \<noteq> 0"
    by (auto simp: SpeedMonitor_update_xyt_def Let_def split: sum.splits if_splits)
  have rp: "recent_points ?m1 = recent_points m" and pr: "pre_recent_point ?m1 = pre_recent_point m"
    and um: "units_per_mm ?m1 = units_per_mm m" and ci: "calculation_interval ?m1 = calculation_interval m"
    by simp_all
  have ev: "evicted_points (t - calculation_interval m) ?m1 = evicted_points (t - calculation_interval m) m"
    by (simp add: evicted_points_def Let_def)
  from assms vt u have m': "m' = ?m2\<lparr>recent_points := recent_points ?m2 @ [stored m x y t]\<rparr>"
    by (auto simp: SpeedMonitor_update_xyt_def Let_def stored_def split: if_splits)
  show "evicted_points (t - calculation_interval m) m @ recent_points m'
           = recent_points m @ [stored m x y t]"
    using evicted_split [of "t - calculation_interval m" ?m1] ev rp
    by (simp only: m' SpeedMonitor.simps append_assoc [symmetric]) simp
  show "pre_recent_point m' =
           (if evicted_points (t - calculation_interval m) m = [] then pre_recent_point m
            else Some (last (evicted_points (t - calculation_interval m) m)))"
    using evicted_pre [of "t - calculation_interval m" ?m1] ev pr
    by (simp only: m' SpeedMonitor.simps) simp
  show "units_per_mm m' = units_per_mm m" "calculation_interval m' = calculation_interval m"
    "time0 m' = (if time0 m = None then Some t else time0 m)"
    by (simp_all add: m' remove_frame)
  show "pt (last (recent_points m)) \<le> t" if "recent_points m \<noteq> []"
    using vt that by (auto simp: validate_time_def prev_time_def split: option.splits if_splits)
  show "units_per_mm m \<noteq> 0" by (rule u)
  show "recent_points m' \<noteq> []" "last (recent_points m') = stored m x y t"
    by (simp_all add: m')
qed

subsection \<open>The history invariant\<close>

lemma path_ok_snoc:
  "path_ok (xs @ [a]) \<longleftrightarrow>
     path_ok xs \<and>
     (xs \<noteq> [] \<longrightarrow> pd a = NpFloat (sqrt ((px a - px (last xs))\<^sup>2 + (py a - py (last xs))\<^sup>2)))"
  by (induction xs rule: path_ok.induct) auto

lemma path_ok_tl: "path_ok (a # zs) \<Longrightarrow> path_ok zs"
  by (cases zs) auto

lemma path_ok_suffix: "path_ok (xs @ ys) \<Longrightarrow> path_ok ys"
  by (induction xs) (auto dest: path_ok_tl)

lemma sorted_le_last: "sorted xs \<Longrightarrow> (x::real) \<in> set xs \<Longrightarrow> x \<le> last xs"
  by (induction xs) auto

lemma history_inv_reset: "history_inv [] (SpeedMonitor_reset t0 m)"
  by (simp add: history_inv_def SpeedMonitor_reset_def)

lemma history_inv_step:
  assumes inv: "history_inv ev m"
    and upd: "SpeedMonitor_update_xyt x y t m = (Inr (), m')"
  shows "history_inv (ev @ evicted_points (t - calculation_interval m) m) m'"
proof -
  let ?e = "evicted_points (t - calculation_interval m) m"
  note st = update_xyt_step [OF upd]
  have hist: "(ev @ ?e) @ recent_points m' = (ev @ recent_points m) @ [stored m x y t]"
    using st(1) by simp
  have ne: "recent_points m' \<noteq> []"
    by (rule st(8))
  from inv have srt: "sorted (map pt (ev @ recent_points m))"
    and pth: "path_ok (ev @ recent_points m)"
    and emp: "recent_points m = [] \<Longrightarrow> ev = []"
    and pre: "pre_recent_point m = (if ev = [] then None else Some (last ev))"
    by (simp_all add: history_inv_def)
  have last_hist: "last (ev @ recent_points m) = last (recent_points m)" if "recent_points m \<noteq> []"
    using that by simp
  have srt': "sorted (map pt ((ev @ recent_points m) @ [stored m x y t]))"
  proof (cases "recent_points m = []")
    case True
    with emp show ?thesis by simp
  next
    case False
    then have le: "pt (last (recent_points m)) \<le> t" by (rule st(6))
    have "pt s \<le> t" if "s \<in> set (ev @ recent_points m)" for s
    proof -
      from that have "pt s \<in> set (map pt (ev @ recent_points m))" by (simp only: set_map image_eqI)
      with srt have "pt s \<le> last (map pt (ev @ recent_points m))" by (rule sorted_le_last)
      also have "\<dots> = pt (last (recent_points m))"
        using False by (simp add: last_map)
      finally show ?thesis using le by simp
    qed
    then have "\<forall>a \<in> set (map pt (ev @ recent_points m)). a \<le> t" by auto
    with srt have "sorted (map pt (ev @ recent_points m) @ [t])"
      by (simp only: sorted_append) simp
    then show ?thesis
      by (simp add: stored_def)
  qed
  have pth': "path_ok ((ev @ recent_points m) @ [stored m x y t])"
  proof (cases "recent_points m = []")
    case True
    with emp show ?thesis by simp
  next
    case False
    with pth show ?thesis
      by (simp add: path_ok_snoc stored_def del: append_assoc)
  qed
  have pre': "pre_recent_point m' = (if ev @ ?e = [] then None else Some (last (ev @ ?e)))"
    using st(2) pre by simp
  from srt' pth' pre' ne hist show ?thesis
    by (simp add: history_inv_def del: append_assoc)
qed

subsection \<open>Sequences of pushes\<close>

lemma run_updates_Cons:
  "run_updates m ((x, y, t) # rest) = Inr m' \<longleftrightarrow>
     (\<exists>m1. SpeedMonitor_update_xyt x y t m = (Inr (), m1) \<and> run_updates m1 rest = Inr m')"
  by (auto split: prod.splits sum.splits)

lemma evicted_by_Cons:
  "SpeedMonitor_update_xyt x y t m = (Inr (), m1) \<Longrightarrow>
   evicted_by m ((x, y, t) # rest) =
     evicted_points (t - calculation_interval m) m @ evicted_by m1 rest"
  by simp

lemma run_updates_inv:
  "history_inv ev m \<Longrightarrow> run_updates m ins = Inr m' \<Longrightarrow>
   history_inv (ev @ evicted_by m ins) m'"
proof (induction ins arbitrary: m ev)
  case Nil
  then show ?case by simp
next
  case (Cons i ins)
  obtain x y t where i: "i = (x, y, t)" by (cases i)
  from Cons.prems(2) obtain m1
    where upd: "SpeedMonitor_update_xyt x y t m = (Inr (), m1)"
      and rest: "run_updates m1 ins = Inr m'"
    unfolding i run_updates_Cons by blast
  from Cons.prems(1) upd
  have "history_inv (ev @ evicted_points (t - calculation_interval m) m) m1"
    by (rule history_inv_step)
  from Cons.IH [OF this rest] show ?case
    unfolding i evicted_by_Cons [OF upd] by simp
qed

lemma run_updates_frame:
  "run_updates m ins = Inr m' \<Longrightarrow>
   units_per_mm m' = units_per_mm m \<and> calculation_interval m' = calculation_interval m"
proof (induction ins arbitrary: m)
  case Nil
  then show ?case by simp
next
  case (Cons i ins)
  obtain x y t where i: "i = (x, y, t)" by (cases i)
  from Cons.prems obtain m1
    where upd: "SpeedMonitor_update_xyt x y t m = (Inr (), m1)"
      and rest: "run_updates m1 ins = Inr m'"
    unfolding i run_updates_Cons by blast
  from Cons.IH [OF rest] update_xyt_step(3,4) [OF upd] show ?case by simp
qed

lemma run_updates_nonempty:
  "run_updates m ins = Inr m' \<Longrightarrow> ins \<noteq> [] \<Longrightarrow>
   recent_points m' \<noteq> [] \<and> time0 m' \<noteq> None"
proof (induction ins arbitrary: m)
  case Nil
  then show ?case by simp
next
  case (Cons i ins)
  obtain x y t where i: "i = (x, y, t)" by (cases i)
  from Cons.prems(1) obtain m1
    where upd: "SpeedMonitor_update_xyt x y t m = (Inr (), m1)"
      and rest: "run_updates m1 ins = Inr m'"
    unfolding i run_updates_Cons by blast
  show ?case
  proof (cases "ins = []")
    case True
    with rest update_xyt_step(5,8) [OF upd] show ?thesis by (auto split: if_splits)
  next
    case False
    with Cons.IH [OF rest] show ?thesis by simp
  qed
qed

lemma run_updates_last:
  "run_updates m ins = Inr m' \<Longrightarrow> ins \<noteq> [] \<Longrightarrow>
   (case last ins of (x, y, t) \<Rightarrow>
      px (last (recent_points m')) = x / units_per_mm m \<and>
      py (last (recent_points m')) = y / units_per_mm m \<and>
      pt (last (recent_points m')) = t)"
proof (induction ins arbitrary: m)
  case Nil
  then show ?case by simp
next
  case (Cons i ins)
  obtain x y t where i: "i = (x, y, t)" by (cases i)
  from Cons.prems(1) obtain m1
    where upd: "SpeedMonitor_update_xyt x y t m = (Inr (), m1)"
      and rest: "run_updates m1 ins = Inr m'"
    unfolding i run_updates_Cons by blast
  show ?case
  proof (cases "ins = []")
    case True
    with rest update_xyt_step(9) [OF upd] show ?thesis by (simp add: i stored_def)
  next
    case False
    with Cons.IH [OF rest] update_xyt_step(3) [OF upd] show ?thesis by simp
  qed
qed

lemma run_updates_contents:
  "run_updates m ins = Inr m' \<Longrightarrow>
   map (\<lambda>s. (px s, py s, pt s)) (evicted_by m ins @ recent_points m') =
     map (\<lambda>s. (px s, py s, pt s)) (recent_points m) @
     map (\<lambda>(x, y, t). (x / units_per_mm m, y / units_per_mm m, t)) ins"
proof (induction ins arbitrary: m)
  case Nil
  then show ?case by simp
next
  case (Cons i ins)
  obtain x y t where i: "i = (x, y, t)" by (cases i)
  from Cons.prems(1) obtain m1
    where upd: "SpeedMonitor_update_xyt x y t m = (Inr (), m1)"
      and rest: "run_updates m1 ins = Inr m'"
    unfolding i run_updates_Cons by blast
  have "map (\<lambda>s. (px s, py s, pt s)) (evicted_by m (i # ins) @ recent_points m') =
        map (\<lambda>s. (px s, py s, pt s)) (evicted_points (t - calculation_interval m) m) @
        map (\<lambda>s. (px s, py s, pt s)) (evicted_by m1 ins @ recent_points m')"
    unfolding i evicted_by_Cons [OF upd] by simp
  also have "\<dots> =
        map (\<lambda>s. (px s, py s, pt s)) (evicted_points (t - calculation_interval m) m @ recent_points m1) @
        map (\<lambda>(x, y, t). (x / units_per_mm m, y / units_per_mm m, t)) ins"
    using Cons.IH [OF rest] update_xyt_step(3) [OF upd] by simp
  also have "\<dots> =
        map (\<lambda>s. (px s, py s, pt s)) (recent_points m) @
        map (\<lambda>(x, y, t). (x / units_per_mm m, y / units_per_mm m, t)) (i # ins)"
    unfolding update_xyt_step(1) [OF upd] by (simp add: i stored_def)
  finally show ?case .
qed

lemma run_updates_time0:
  "run_updates m ins = Inr m' \<Longrightarrow> ins \<noteq> [] \<Longrightarrow>
   time0 m' = Some (case time0 m of Some a \<Rightarrow> a | None \<Rightarrow> (case hd ins of (x, y, t) \<Rightarrow> t))"
proof (induction ins arbitrary: m)
  case Nil
  then show ?case by simp
next
  case (Cons i ins)
  obtain x y t where i: "i = (x, y, t)" by (cases i)
  from Cons.prems(1) obtain m1
    where upd: "SpeedMonitor_update_xyt x y t m = (Inr (), m1)"
      and rest: "run_updates m1 ins = Inr m'"
    unfolding i run_updates_Cons by blast
  have t1: "time0 m1 = Some (case time0 m of Some a \<Rightarrow> a | None \<Rightarrow> t)"
    using update_xyt_step(5) [OF upd] by (cases "time0 m") simp_all
  show ?case
  proof (cases "ins = []")
    case True
    with rest t1 show ?thesis by (simp add: i split: option.splits)
  next
    case False
    from Cons.IH [OF rest False] t1 show ?thesis by (simp add: i split: option.splits)
  qed
qed

lemma update_xyt_accepts:
  assumes "units_per_mm m \<noteq> 0" and "\<forall>p. prev_time m = Some p \<longrightarrow> p \<le> t"
  shows "\<exists>m1. SpeedMonitor_update_xyt x y t m = (Inr (), m1) \<and> prev_time m1 = Some t
               \<and> units_per_mm m1 = units_per_mm m"
proof -
  from assms(2) have vt: "validate_time m t = Inr ()"
    by (auto simp: validate_time_def split: option.splits)
  with assms(1) have "fst (SpeedMonitor_update_xyt x y t m) = Inr ()"
    by (simp add: SpeedMonitor_update_xyt_def Let_def)
  then obtain m1 where upd: "SpeedMonitor_update_xyt x y t m = (Inr (), m1)"
    by (cases "SpeedMonitor_update_xyt x y t m") auto
  from update_xyt_step(8,9,3) [OF upd] have "prev_time m1 = Some t" "units_per_mm m1 = units_per_mm m"
    by (simp_all add: prev_time_def stored_def)
  with upd show ?thesis by blast
qed

lemma run_updates_accepts:
  "units_per_mm m \<noteq> 0 \<Longrightarrow> sorted (map (\<lambda>(x, y, t). t) ins) \<Longrightarrow>
   (\<forall>(x, y, t) \<in> set ins. \<forall>p. prev_time m = Some p \<longrightarrow> p \<le> t) \<Longrightarrow>
   \<exists>m'. run_updates m ins = Inr m'"
proof (induction ins arbitrary: m)
  case Nil
  then show ?case by simp
next
  case (Cons i ins)
  obtain x y t where i: "i = (x, y, t)" by (cases i)
  from Cons.prems(3) have "\<forall>p. prev_time m = Some p \<longrightarrow> p \<le> t"
    by (simp add: i)
  with Cons.prems(1) obtain m1
    where upd: "SpeedMonitor_update_xyt x y t m = (Inr (), m1)"
      and pt1: "prev_time m1 = Some t" and u1: "units_per_mm m1 = units_per_mm m"
    using update_xyt_accepts by blast
  from Cons.prems(2) have srt: "sorted (map (\<lambda>(x, y, t). t) ins)"
    and ge: "\<forall>j \<in> set ins. t \<le> (\<lambda>(x, y, t). t) j"
    by (simp_all add: i)
  from ge pt1 have "\<forall>(x, y, t') \<in> set ins. \<forall>p. prev_time m1 = Some p \<longrightarrow> p \<le> t'"
    by auto
  with Cons.IH [of m1] u1 Cons.prems(1) srt obtain m' where "run_updates m1 ins = Inr m'"
    by auto
  with upd show ?case by (simp add: i)
qed

subsection \<open>The concrete scenarios, evaluated\<close>

lemma sqrt_9: "sqrt 9 = 3"
  using real_sqrt_abs [of 3] by simp

lemma sqrt_16: "sqrt 16 = 4"
  using real_sqrt_abs [of 4] by simp

lemma sqrt_25: "sqrt 25 = 5"
  using real_sqrt_abs [of 5] by simp

lemmas window_defs = window_monitor_def window_after_1_def window_after_2_def
  window_after_3_def window_after_4_def

lemma window_run_1: "run_updates window_monitor [(0, 0, 0)] = Inr window_after_1"
  by (simp add: window_defs monitor_defs Let_def)

lemma window_run_3:
  "run_updates window_monitor [(0, 0, 0), (3, 0, 2), (3, 4, 3)] = Inr window_after_3"
  by (simp add: window_defs monitor_defs Let_def)

lemma window_run_4:
  "run_updates window_monitor [(0, 0, 0), (3, 0, 2), (3, 4, 3), (3, 4, 6)] = Inr window_after_4"
  by (simp add: window_defs monitor_defs Let_def)

lemma window_after_3_eq:
  "window_after_3 =
     \<lparr>units_per_mm = 1, calculation_interval = 2,
      recent_points = [Sample 3 0 2 (NpFloat 3), Sample 3 4 3 (NpFloat 4)],
      pre_recent_point = Some (Sample 0 0 0 (PyNum 0)), time0 = Some 0\<rparr>"
  by (simp add: window_defs monitor_defs Let_def sqrt_9 sqrt_16)

lemma window_after_4_eq:
  "window_after_4 =
     \<lparr>units_per_mm = 1, calculation_interval = 2,
      recent_points = [Sample 3 4 6 (NpFloat 0)],
      pre_recent_point = Some (Sample 3 4 3 (NpFloat 4)), time0 = Some 0\<rparr>"
  by (simp add: window_defs monitor_defs Let_def sqrt_9 sqrt_16)

lemma window_evicted_4:
  "evicted_by window_monitor [(0, 0, 0), (3, 0, 2), (3, 4, 3), (3, 4, 6)] =
     [Sample 0 0 0 (PyNum 0), Sample 3 0 2 (NpFloat 3), Sample 3 4 3 (NpFloat 4)]"
  by (simp add: window_defs monitor_defs evicted_points_def Let_def sqrt_9 sqrt_16)

lemma instant_after_2_eq:
  "instant_after_2 =
     \<lparr>units_per_mm = 1, calculation_interval = 0,
      recent_points = [Sample 3 4 0 (NpFloat 5)],
      pre_recent_point = Some (Sample 0 0 0 (PyNum 0)), time0 = Some 0\<rparr>"
  by (simp add: instant_after_2_def instant_monitor_def monitor_defs Let_def sqrt_25)

subsection \<open>The window invariant\<close>

lemma history_inv_run:
  assumes "run_updates (SpeedMonitor_reset t0 m0) ins = Inr m'"
  shows "history_inv (evicted_by (SpeedMonitor_reset t0 m0) ins) m'"
  using run_updates_inv [OF history_inv_reset assms] by simp

text \<open>
  Claim C2. Every sequence of \<^verbatim>\<open>update_xyt\<close> calls with non-decreasing times (none
  earlier than the reset time, on a monitor whose \<^verbatim>\<open>units_per_mm\<close> is not zero) is
  accepted, and afterwards: the retained points are ordered by time; the evicted points
  followed by the retained ones are the pushes, in the order of the calls; the point
  pushed last is retained, as the last of the list; the pre-window point is the last
  point evicted, if any was; and no evicted point has a later time than that one.
\<close>

theorem window_invariant:
  assumes u: "units_per_mm m0 \<noteq> 0"
    and srt: "sorted (map (\<lambda>(x, y, t). t) ins)"
    and t0: "\<forall>(x, y, t) \<in> set ins. \<forall>a. t0 = Some a \<longrightarrow> a \<le> t"
  shows "\<exists>m'. run_updates (SpeedMonitor_reset t0 m0) ins = Inr m'
      \<and> sorted (map pt (recent_points m'))
      \<and> map (\<lambda>s. (px s, py s, pt s)) (evicted_by (SpeedMonitor_reset t0 m0) ins @ recent_points m')
          = map (\<lambda>(x, y, t). (x / units_per_mm m0, y / units_per_mm m0, t)) ins
      \<and> (ins \<noteq> [] \<longrightarrow> recent_points m' \<noteq> [] \<and>
           (case last ins of (x, y, t) \<Rightarrow>
              px (last (recent_points m')) = x / units_per_mm m0 \<and>
              py (last (recent_points m')) = y / units_per_mm m0 \<and>
              pt (last (recent_points m')) = t))
      \<and> pre_recent_point m' =
           (if evicted_by (SpeedMonitor_reset t0 m0) ins = [] then None
            else Some (last (evicted_by (SpeedMonitor_reset t0 m0) ins)))
      \<and> (\<forall>e \<in> set (evicted_by (SpeedMonitor_reset t0 m0) ins).
            pt e \<le> pt (last (evicted_by (SpeedMonitor_reset t0 m0) ins)))"
proof -
  let ?r = "SpeedMonitor_reset t0 m0"
  let ?ev = "evicted_by ?r ins"
  have ur: "units_per_mm ?r = units_per_mm m0" and rr: "recent_points ?r = []"
    and pr: "prev_time ?r = t0"
    by (simp_all add: SpeedMonitor_reset_def prev_time_def)
  from t0 pr have "\<forall>(x, y, t) \<in> set ins. \<forall>p. prev_time ?r = Some p \<longrightarrow> p \<le> t"
    by simp
  with u ur srt obtain m' where run: "run_updates ?r ins = Inr m'"
    using run_updates_accepts [of ?r ins] by auto
  from run have inv: "history_inv ?ev m'" by (rule history_inv_run)
  then have s_all: "sorted (map pt ?ev @ map pt (recent_points m'))"
    and pre: "pre_recent_point m' = (if ?ev = [] then None else Some (last ?ev))"
    by (simp_all add: history_inv_def)
  from s_all have s_rec: "sorted (map pt (recent_points m'))" and s_ev: "sorted (map pt ?ev)"
    by (simp_all add: sorted_append)
  have newest: "pt e \<le> pt (last ?ev)" if "e \<in> set ?ev" for e
  proof -
    from that have ne: "?ev \<noteq> []" by auto
    from that have "pt e \<in> set (map pt ?ev)" by simp
    with s_ev have "pt e \<le> last (map pt ?ev)" by (rule sorted_le_last)
    with ne show ?thesis by (simp add: last_map)
  qed
  have contents: "map (\<lambda>s. (px s, py s, pt s)) (?ev @ recent_points m')
          = map (\<lambda>(x, y, t). (x / units_per_mm m0, y / units_per_mm m0, t)) ins"
    using run_updates_contents [OF run] ur rr by simp
  have lst: "recent_points m' \<noteq> [] \<and>
           (case last ins of (x, y, t) \<Rightarrow>
              px (last (recent_points m')) = x / units_per_mm m0 \<and>
              py (last (recent_points m')) = y / units_per_mm m0 \<and>
              pt (last (recent_points m')) = t)" if "ins \<noteq> []"
    using run_updates_nonempty [OF run that] run_updates_last [OF run that] ur by simp
  from lst have l2: "ins \<noteq> [] \<longrightarrow> recent_points m' \<noteq> [] \<and>
           (case last ins of (x, y, t) \<Rightarrow>
              px (last (recent_points m')) = x / units_per_mm m0 \<and>
              py (last (recent_points m')) = y / units_per_mm m0 \<and>
              pt (last (recent_points m')) = t)"
    by blast
  from newest have n2: "\<forall>e \<in> set ?ev. pt e \<le> pt (last ?ev)"
    by blast
  show ?thesis
    using run s_rec contents l2 pre n2
    by (intro exI [of _ m'] conjI) assumption+
qed

text \<open>
  On \<open>window_pushes\<close>: the four pushes are accepted, the newest point is the only one
  retained, and the pre-window point is the third push, the last of the three evicted.
\<close>

theorem window_invariant_witness:
  "units_per_mm window_monitor \<noteq> 0
   \<and> sorted (map (\<lambda>(x, y, t). t) window_pushes)
   \<and> run_updates window_monitor window_pushes = Inr window_after_4
   \<and> recent_points window_after_4 = [Sample 3 4 6 (NpFloat 0)]
   \<and> pre_recent_point window_after_4 = Some (Sample 3 4 3 (NpFloat 4))
   \<and> evicted_by window_monitor window_pushes =
       [Sample 0 0 0 (PyNum 0), Sample 3 0 2 (NpFloat 3), Sample 3 4 3 (NpFloat 4)]"
proof -
  have w: "SpeedMonitor_reset None window_monitor = window_monitor"
    by (simp add: window_monitor_def SpeedMonitor_reset_def)
  have u: "units_per_mm window_monitor \<noteq> 0"
    by (simp add: window_monitor_def SpeedMonitor_reset_def)
  have s: "sorted (map (\<lambda>(x, y, t). t) window_pushes)"
    by (simp add: window_pushes_def)
  have t: "\<forall>(x, y, t) \<in> set window_pushes. \<forall>a. (None :: real option) = Some a \<longrightarrow> a \<le> t"
    by simp
  from window_invariant [OF u s t] obtain m'
    where "run_updates (SpeedMonitor_reset None window_monitor) window_pushes = Inr m'"
      and "pre_recent_point m' =
           (if evicted_by (SpeedMonitor_reset None window_monitor) window_pushes = [] then None
            else Some (last (evicted_by (SpeedMonitor_reset None window_monitor) window_pushes)))"
    by (elim exE conjE)
  then have run: "run_updates window_monitor window_pushes = Inr m'"
    and pre: "pre_recent_point m' =
           (if evicted_by window_monitor window_pushes = [] then None
            else Some (last (evicted_by window_monitor window_pushes)))"
    by (simp_all only: w)
  have r4: "run_updates window_monitor window_pushes = Inr window_after_4"
    using window_run_4 by (simp only: window_pushes_def)
  have e4: "evicted_by window_monitor window_pushes =
       [Sample 0 0 0 (PyNum 0), Sample 3 0 2 (NpFloat 3), Sample 3 4 3 (NpFloat 4)]"
    using window_evicted_4 by (simp only: window_pushes_def)
  from run r4 have m': "m' = window_after_4" by simp
  from pre have p4: "pre_recent_point window_after_4 = Some (Sample 3 4 3 (NpFloat 4))"
    by (simp only: m' e4) simp
  have rec: "recent_points window_after_4 = [Sample 3 4 6 (NpFloat 0)]"
    by (simp add: window_after_4_eq)
  from u s r4 rec p4 e4 show ?thesis
    by (intro conjI)
qed

subsection \<open>Speeds over the window\<close>

lemma to_real_py_add: "to_real (py_add a b) = to_real a + to_real b"
  by (cases a; cases b) simp_all

lemma to_real_foldl_py_add:
  "to_real (foldl py_add a ns) = to_real a + sum_list (map to_real ns)"
  by (induction ns arbitrary: a) (simp_all add: to_real_py_add)

lemma to_real_py_sum: "to_real (py_sum ns) = sum_list (map to_real ns)"
  by (simp add: py_sum_def to_real_foldl_py_add)

lemma py_div_nonzero: "d \<noteq> 0 \<Longrightarrow> py_div n d = Inr (Fin (to_real n / d))"
  by (cases n) simp_all

lemma foldl_py_add_NpFloat: "\<exists>b. foldl py_add (NpFloat a) ns = NpFloat b"
  by (induction ns arbitrary: a) simp_all

lemma py_sum_NpFloat:
  "ns \<noteq> [] \<Longrightarrow> \<exists>a. hd ns = NpFloat a \<Longrightarrow> \<exists>b. py_sum ns = NpFloat b"
  by (cases ns) (auto simp: py_sum_def foldl_py_add_NpFloat)

lemma map_sum_id_Some: "map_sum id Some r = Inr (Some v) \<longleftrightarrow> r = Inr v"
  by (cases r) auto

lemma py_div_NpFloat: "py_div (NpFloat a) d \<noteq> Inl e"
  by simp

lemma path_ok_hd: "path_ok (p # ps) \<Longrightarrow> ps \<noteq> [] \<Longrightarrow> \<exists>a. pd (hd ps) = NpFloat a"
  by (cases ps) auto

lemma abs_le_sqrt_sum: "\<bar>a\<bar> \<le> sqrt (a\<^sup>2 + b\<^sup>2)" "\<bar>b\<bar> \<le> sqrt (a\<^sup>2 + b\<^sup>2)"
  by (simp_all add: real_le_rsqrt)

lemma path_length_bounds:
  "path_ok (p # ps) \<Longrightarrow> ps \<noteq> [] \<Longrightarrow>
   \<bar>px (last ps) - px p\<bar> \<le> sum_list (map to_real (map pd ps)) \<and>
   \<bar>py (last ps) - py p\<bar> \<le> sum_list (map to_real (map pd ps))"
proof (induction ps arbitrary: p)
  case Nil
  then show ?case by simp
next
  case (Cons a ps)
  from Cons.prems(1) have da: "to_real (pd a) = sqrt ((px a - px p)\<^sup>2 + (py a - py p)\<^sup>2)"
    and rest: "path_ok (a # ps)"
    by simp_all
  have xa: "\<bar>px a - px p\<bar> \<le> to_real (pd a)" and ya: "\<bar>py a - py p\<bar> \<le> to_real (pd a)"
    unfolding da by (rule abs_le_sqrt_sum)+
  show ?case
  proof (cases "ps = []")
    case True
    with xa ya show ?thesis by simp
  next
    case False
    from Cons.IH [OF rest False]
    have "\<bar>px (last ps) - px a\<bar> \<le> sum_list (map to_real (map pd ps))"
      and "\<bar>py (last ps) - py a\<bar> \<le> sum_list (map to_real (map pd ps))"
      by simp_all
    with xa ya False show ?thesis
      by simp (intro conjI; linarith)
  qed
qed

text \<open>What the invariant says about a monitor that holds a pre-window point.\<close>

lemma history_inv_pre:
  assumes inv: "history_inv ev m" and pre: "pre_recent_point m = Some p"
  shows "recent_points m \<noteq> []" and "path_ok (p # recent_points m)"
    and "pt p \<le> pt (last (recent_points m))"
proof -
  from inv pre have ev: "ev \<noteq> []" and p: "p = last ev"
    by (auto simp: history_inv_def split: if_splits)
  from inv ev show ne: "recent_points m \<noteq> []"
    by (auto simp: history_inv_def)
  from ev p have split: "ev @ recent_points m = butlast ev @ (p # recent_points m)"
    by simp
  from inv have "path_ok (ev @ recent_points m)" and srt: "sorted (map pt (ev @ recent_points m))"
    by (simp_all add: history_inv_def)
  then show "path_ok (p # recent_points m)"
    unfolding split by (blast intro: path_ok_suffix)
  from srt have "sorted (map pt (p # recent_points m))"
    unfolding split by (simp add: sorted_append)
  with ne show "pt p \<le> pt (last (recent_points m))"
    by simp
qed

lemma xyspeed_no_exception:
  assumes inv: "history_inv ev m"
  shows "xyspeed m \<noteq> Inl e"
proof (cases "pre_recent_point m")
  case None
  then show ?thesis by (simp add: xyspeed_def)
next
  case (Some p)
  note h = history_inv_pre [OF inv Some]
  from h(1) obtain a rest where rp: "recent_points m = a # rest" by (cases "recent_points m") auto
  from h(2) h(1) have "\<exists>b. pd (hd (recent_points m)) = NpFloat b" by (rule path_ok_hd)
  then have "\<exists>b. hd (map pd (recent_points m)) = NpFloat b"
    using h(1) by (simp add: hd_map)
  with h(1) obtain b where "py_sum (map pd (recent_points m)) = NpFloat b"
    using py_sum_NpFloat [of "map pd (recent_points m)"] by auto
  with Some rp show ?thesis
    by (auto simp: xyspeed_def divide_by_interval_def last_calculation_interval_def Let_def)
qed

text \<open>
  In exact arithmetic the path length over the window bounds the net displacement along
  either axis: after any accepted sequence of pushes from a reset monitor, whenever
  \<^verbatim>\<open>xspeed\<close>, \<^verbatim>\<open>yspeed\<close> and \<^verbatim>\<open>xyspeed\<close> all return a value, the three values are
  finite and \<^verbatim>\<open>xyspeed\<close> is at least the absolute value of either axis speed. This is a
  fact about the real numbers of this model only. The program computes in IEEE doubles,
  and every subtraction, square root, sum and division rounds: there the computed path
  length can fall an ulp below the computed displacement, so nothing follows for the
  values the program returns.
\<close>

lemma path_speed_bounds_exact:
  assumes run: "run_updates (SpeedMonitor_reset t0 m0) ins = Inr m'"
    and sx: "xspeed m' = Inr (Some sx)"
    and sy: "yspeed m' = Inr (Some sy)"
    and sxy: "xyspeed m' = Inr (Some sxy)"
  shows "\<exists>vx vy vxy. sx = Fin vx \<and> sy = Fin vy \<and> sxy = Fin vxy \<and> \<bar>vx\<bar> \<le> vxy \<and> \<bar>vy\<bar> \<le> vxy"
proof -
  from run have inv: "history_inv (evicted_by (SpeedMonitor_reset t0 m0) ins) m'"
    by (rule history_inv_run)
  from sx obtain p where pre: "pre_recent_point m' = Some p"
    by (cases "pre_recent_point m'") (auto simp: xspeed_def)
  note h = history_inv_pre [OF inv pre]
  from h(1) obtain a rest where rp: "recent_points m' = a # rest"
    by (cases "recent_points m'") auto
  define d where "d = pt (last (recent_points m')) - pt p"
  have lci: "last_calculation_interval m' = Inr (Some d)"
    using pre rp by (simp add: last_calculation_interval_def d_def)
  from h(3) have d0: "0 \<le> d" by (simp add: d_def)
  have dx: "py_div (PyNum (px (last (recent_points m')) - px p)) d = Inr sx"
    using sx pre rp lci
    by (auto simp: xspeed_def divide_by_interval_def Let_def split: sum.splits)
  then have dne: "d \<noteq> 0" by (auto split: if_splits)
  with d0 have dpos: "0 < d" by simp
  from dx dne have vx: "sx = Fin ((px (last (recent_points m')) - px p) / d)"
    by simp
  have "py_div (PyNum (py (last (recent_points m')) - py p)) d = Inr sy"
    using sy pre rp lci
    by (auto simp: yspeed_def divide_by_interval_def Let_def split: sum.splits)
  with dne have vy: "sy = Fin ((py (last (recent_points m')) - py p) / d)"
    by simp
  have "py_div (py_sum (map pd (recent_points m'))) d = Inr sxy"
    using sxy pre lci
    by (simp add: xyspeed_def divide_by_interval_def Let_def map_sum_id_Some)
  with dne have vxy: "sxy = Fin (sum_list (map to_real (map pd (recent_points m'))) / d)"
    by (simp add: py_div_nonzero to_real_py_sum)
  from path_length_bounds [OF h(2) h(1)]
  have bx: "\<bar>px (last (recent_points m')) - px p\<bar> \<le> sum_list (map to_real (map pd (recent_points m')))"
    and by': "\<bar>py (last (recent_points m')) - py p\<bar> \<le> sum_list (map to_real (map pd (recent_points m')))"
    by simp_all
  from bx dpos have "\<bar>(px (last (recent_points m')) - px p) / d\<bar>
      \<le> sum_list (map to_real (map pd (recent_points m'))) / d"
    by (simp add: divide_right_mono)
  moreover from by' dpos have "\<bar>(py (last (recent_points m')) - py p) / d\<bar>
      \<le> sum_list (map to_real (map pd (recent_points m'))) / d"
    by (simp add: divide_right_mono)
  ultimately show ?thesis using vx vy vxy by blast
qed


lemma window_monitor_reset: "SpeedMonitor_reset None window_monitor = window_monitor"
  by (simp add: window_monitor_def SpeedMonitor_reset_def)

text \<open>
  After the pushes \<open>(0,0,0)\<close>, \<open>(3,0,2)\<close>, \<open>(3,4,3)\<close> the window holds a path of
  length 7 over an interval of 3, with a net displacement of 3 along x and 4 along y.
\<close>

lemma path_speed_bounds_exact_example:
  "run_updates window_monitor [(0, 0, 0), (3, 0, 2), (3, 4, 3)] = Inr window_after_3
   \<and> xspeed window_after_3 = Inr (Some (Fin 1))
   \<and> yspeed window_after_3 = Inr (Some (Fin (4 / 3)))
   \<and> xyspeed window_after_3 = Inr (Some (Fin (7 / 3)))
   \<and> \<bar>1 :: real\<bar> \<le> 7 / 3 \<and> \<bar>4 / 3 :: real\<bar> \<le> 7 / 3"
proof -
  have run: "run_updates (SpeedMonitor_reset None window_monitor) [(0, 0, 0), (3, 0, 2), (3, 4, 3)]
      = Inr window_after_3"
    using window_run_3 by (simp only: window_monitor_reset)
  have x: "xspeed window_after_3 = Inr (Some (Fin 1))"
    and y: "yspeed window_after_3 = Inr (Some (Fin (4 / 3)))"
    and xy: "xyspeed window_after_3 = Inr (Some (Fin (7 / 3)))"
    by (simp_all add: window_after_3_eq monitor_defs)
  from path_speed_bounds_exact [OF run x y xy]
  have "\<bar>1 :: real\<bar> \<le> 7 / 3 \<and> \<bar>4 / 3 :: real\<bar> \<le> 7 / 3"
    by auto
  with window_run_3 x y xy show ?thesis by simp
qed

lemma divide_by_interval_not_None: "divide_by_interval n m \<noteq> Inr None"
proof (cases "last_calculation_interval m")
  case (Inl e)
  then show ?thesis by (simp add: divide_by_interval_def)
next
  case (Inr r)
  show ?thesis
  proof (cases r)
    case None
    with Inr show ?thesis by (simp add: divide_by_interval_def)
  next
    case (Some d)
    with Inr show ?thesis
      by (cases "py_div n d") (simp_all add: divide_by_interval_def)
  qed
qed

lemma xspeed_None_iff: "xspeed m = Inr None \<longleftrightarrow> pre_recent_point m = None"
  by (cases "pre_recent_point m"; cases "recent_points m")
    (simp_all add: xspeed_def Let_def divide_by_interval_not_None)

lemma yspeed_None_iff: "yspeed m = Inr None \<longleftrightarrow> pre_recent_point m = None"
  by (cases "pre_recent_point m"; cases "recent_points m")
    (simp_all add: yspeed_def Let_def divide_by_interval_not_None)

lemma xyspeed_None_iff: "xyspeed m = Inr None \<longleftrightarrow> pre_recent_point m = None"
  by (cases "pre_recent_point m")
    (simp_all add: xyspeed_def Let_def divide_by_interval_not_None)

lemma last_calculation_interval_None_iff:
  "last_calculation_interval m = Inr None \<longleftrightarrow> pre_recent_point m = None"
  by (cases "pre_recent_point m"; cases "recent_points m")
    (simp_all add: last_calculation_interval_def)

lemmas queries_None_iff = xspeed_None_iff yspeed_None_iff xyspeed_None_iff
  last_calculation_interval_None_iff

text \<open>
  Claim C8, as amended. After any accepted sequence of pushes from a reset monitor:
  as long as no point has been evicted, \<^verbatim>\<open>xspeed\<close>, \<^verbatim>\<open>yspeed\<close>, \<^verbatim>\<open>xyspeed\<close> and
  \<^verbatim>\<open>last_calculation_interval\<close> return \<^verbatim>\<open>None\<close>, and once a point has been evicted none
  of them does; \<^verbatim>\<open>time_in_trial\<close> returns \<^verbatim>\<open>None\<close> only before the first push, and
  from the first push on it returns the time of the newest push minus the start time,
  which is the time given to \<^verbatim>\<open>reset\<close> or, when \<^verbatim>\<open>reset\<close> was given none, the time of
  the first push.
\<close>

theorem queries_before_eviction:
  assumes run: "run_updates (SpeedMonitor_reset t0 m0) ins = Inr m'"
  shows "(evicted_by (SpeedMonitor_reset t0 m0) ins = [] \<longrightarrow>
            xspeed m' = Inr None \<and> yspeed m' = Inr None \<and> xyspeed m' = Inr None \<and>
            last_calculation_interval m' = Inr None)
       \<and> (evicted_by (SpeedMonitor_reset t0 m0) ins \<noteq> [] \<longrightarrow>
            xspeed m' \<noteq> Inr None \<and> yspeed m' \<noteq> Inr None \<and> xyspeed m' \<noteq> Inr None \<and>
            last_calculation_interval m' \<noteq> Inr None)
       \<and> (time_in_trial m' = None \<longleftrightarrow> ins = [])
       \<and> (ins \<noteq> [] \<longrightarrow>
            time_in_trial m' =
              Some ((case last ins of (x, y, t) \<Rightarrow> t) -
                    (case t0 of Some a \<Rightarrow> a | None \<Rightarrow> (case hd ins of (x, y, t) \<Rightarrow> t))))"
proof -
  from run have "history_inv (evicted_by (SpeedMonitor_reset t0 m0) ins) m'"
    by (rule history_inv_run)
  then have pre: "pre_recent_point m' = None \<longleftrightarrow> evicted_by (SpeedMonitor_reset t0 m0) ins = []"
    by (simp add: history_inv_def)
  have tt: "time_in_trial m' = None \<longleftrightarrow> ins = []"
  proof (cases "ins = []")
    case True
    with run show ?thesis
      by (auto simp: time_in_trial_def SpeedMonitor_reset_def split: option.splits)
  next
    case False
    with run_updates_nonempty [OF run False] show ?thesis
      by (auto simp: time_in_trial_def split: option.splits)
  qed
  have val: "time_in_trial m' =
      Some ((case last ins of (x, y, t) \<Rightarrow> t) -
            (case t0 of Some a \<Rightarrow> a | None \<Rightarrow> (case hd ins of (x, y, t) \<Rightarrow> t)))"
    if ne: "ins \<noteq> []"
  proof -
    have "time0 (SpeedMonitor_reset t0 m0) = t0"
      by (simp add: SpeedMonitor_reset_def)
    with run_updates_time0 [OF run ne]
    have t0': "time0 m' = Some (case t0 of Some a \<Rightarrow> a | None \<Rightarrow> (case hd ins of (x, y, t) \<Rightarrow> t))"
      by simp
    from run_updates_nonempty [OF run ne] have rp: "recent_points m' \<noteq> []"
      by simp
    from run_updates_last [OF run ne]
    have "pt (last (recent_points m')) = (case last ins of (x, y, t) \<Rightarrow> t)"
      by (cases "last ins") simp
    with t0' rp show ?thesis
      by (simp add: time_in_trial_def)
  qed
  from pre tt val show ?thesis
    by (simp add: queries_None_iff)
qed

lemma window_after_1_eq:
  "window_after_1 =
     \<lparr>units_per_mm = 1, calculation_interval = 2,
      recent_points = [Sample 0 0 0 (PyNum 0)],
      pre_recent_point = None, time0 = Some 0\<rparr>"
  by (simp add: window_defs monitor_defs Let_def)

lemma window_evicted_1: "evicted_by window_monitor [(0, 0, 0)] = []"
  by (simp add: window_defs monitor_defs evicted_points_def Let_def)

lemma window_evicted_3:
  "evicted_by window_monitor [(0, 0, 0), (3, 0, 2), (3, 4, 3)] = [Sample 0 0 0 (PyNum 0)]"
  by (simp add: window_defs monitor_defs evicted_points_def Let_def)

theorem queries_before_eviction_witness:
  "run_updates window_monitor [(0, 0, 0)] = Inr window_after_1
   \<and> evicted_by window_monitor [(0, 0, 0)] = []
   \<and> xspeed window_after_1 = Inr None \<and> yspeed window_after_1 = Inr None
   \<and> xyspeed window_after_1 = Inr None \<and> last_calculation_interval window_after_1 = Inr None
   \<and> run_updates window_monitor [(0, 0, 0), (3, 0, 2), (3, 4, 3)] = Inr window_after_3
   \<and> evicted_by window_monitor [(0, 0, 0), (3, 0, 2), (3, 4, 3)] = [Sample 0 0 0 (PyNum 0)]
   \<and> last_calculation_interval window_after_3 = Inr (Some 3)
   \<and> time_in_trial window_after_1 = Some 0
   \<and> time_in_trial window_after_3 = Some 3"
proof -
  have r1: "run_updates (SpeedMonitor_reset None window_monitor) [(0, 0, 0)] = Inr window_after_1"
    using window_run_1 by (simp only: window_monitor_reset)
  have l3: "last_calculation_interval window_after_3 = Inr (Some 3)"
    by (simp add: window_after_3_eq last_calculation_interval_def)
  from queries_before_eviction [OF r1]
  have "evicted_by window_monitor [(0, 0, 0)] = [] \<longrightarrow>
     xspeed window_after_1 = Inr None \<and> yspeed window_after_1 = Inr None
     \<and> xyspeed window_after_1 = Inr None \<and> last_calculation_interval window_after_1 = Inr None"
    unfolding window_monitor_reset by blast
  with window_evicted_1
  have q1: "xspeed window_after_1 = Inr None \<and> yspeed window_after_1 = Inr None
     \<and> xyspeed window_after_1 = Inr None \<and> last_calculation_interval window_after_1 = Inr None"
    by (rule rev_mp)
  have r3: "run_updates (SpeedMonitor_reset None window_monitor) [(0, 0, 0), (3, 0, 2), (3, 4, 3)]
      = Inr window_after_3"
    using window_run_3 by (simp only: window_monitor_reset)
  from queries_before_eviction [OF r1]
  have t1: "time_in_trial window_after_1 = Some 0"
    by simp
  from queries_before_eviction [OF r3]
  have t3: "time_in_trial window_after_3 = Some 3"
    by simp
  from window_run_1 window_evicted_1 q1 window_run_3 window_evicted_3 l3 t1 t3 show ?thesis
    by (intro conjI) (elim conjE, assumption)+
qed

text \<open>
  The claim as it stands lists \<^verbatim>\<open>time_in_trial\<close> among the queries that return
  \<^verbatim>\<open>None\<close> until a point has been evicted. After the single push \<open>(0,0,0)\<close> nothing
  has been evicted and \<^verbatim>\<open>time_in_trial\<close> is 0.
\<close>

theorem time_in_trial_before_eviction:
  "run_updates window_monitor [(0, 0, 0)] = Inr window_after_1
   \<and> evicted_by window_monitor [(0, 0, 0)] = []
   \<and> pre_recent_point window_after_1 = None
   \<and> time_in_trial window_after_1 = Some 0"
proof -
  have "pre_recent_point window_after_1 = None" "time_in_trial window_after_1 = Some 0"
    by (simp_all add: window_after_1_eq time_in_trial_def)
  with window_run_1 window_evicted_1 show ?thesis
    by (intro conjI)
qed

subsection \<open>An elapsed time of zero\<close>

lemma same_time_first:
  assumes u: "units_per_mm m0 \<noteq> 0" and t0: "\<forall>a. t0 = Some a \<longrightarrow> a \<le> t"
  shows "\<exists>m1. SpeedMonitor_update_xyt x1 y1 t (SpeedMonitor_reset t0 m0) = (Inr (), m1)
      \<and> recent_points m1 = [Sample (x1 / units_per_mm m0) (y1 / units_per_mm m0) t (PyNum 0)]
      \<and> pre_recent_point m1 = None
      \<and> units_per_mm m1 = units_per_mm m0
      \<and> calculation_interval m1 = calculation_interval m0"
  using assms
  by (cases t0)
    (simp_all add: SpeedMonitor_update_xyt_def validate_time_def prev_time_def
      SpeedMonitor_reset_def remove_recent_points_older_than_def older_than_threshold_def Let_def)

lemma same_time_second:
  assumes rp: "recent_points m1 = [Sample a b t (PyNum 0)]"
    and u: "units_per_mm m1 \<noteq> 0" and ci: "calculation_interval m1 = 0"
  shows "\<exists>m2. SpeedMonitor_update_xyt x2 y2 t m1 = (Inr (), m2)
      \<and> recent_points m2 =
          [Sample (x2 / units_per_mm m1) (y2 / units_per_mm m1) t
             (NpFloat (sqrt ((x2 / units_per_mm m1 - a)\<^sup>2 + (y2 / units_per_mm m1 - b)\<^sup>2)))]
      \<and> pre_recent_point m2 = Some (Sample a b t (PyNum 0))"
  using assms
  by (simp add: SpeedMonitor_update_xyt_def validate_time_def prev_time_def
      remove_recent_points_older_than_def older_than_threshold_def Let_def)

lemma sqrt_sum_squares_zero_iff: "sqrt (a\<^sup>2 + b\<^sup>2) = 0 \<longleftrightarrow> a = 0 \<and> b = 0"
  by (simp add: sum_power2_eq_zero_iff)

text \<open>
  Claim C10, as amended. Two calls that carry the same time are both accepted. On a
  monitor with \<^verbatim>\<open>calculation_interval = 0\<close> the second call evicts the first point, which
  becomes the pre-window point at an elapsed time of 0: \<^verbatim>\<open>last_calculation_interval\<close> is
  then 0, and \<^verbatim>\<open>xspeed\<close> and \<^verbatim>\<open>yspeed\<close> raise \<^verbatim>\<open>ZeroDivisionError\<close>.
  \<^verbatim>\<open>xyspeed\<close> does not raise: its numerator is a sum of numpy floats, and the division
  yields \<^verbatim>\<open>nan\<close> when the two positions are equal and \<^verbatim>\<open>inf\<close> otherwise. Indeed
  \<^verbatim>\<open>xyspeed\<close> raises after no accepted sequence of pushes at all.
\<close>

theorem same_time_pushes:
  assumes u: "units_per_mm m0 \<noteq> 0" and ci: "calculation_interval m0 = 0"
    and t0: "\<forall>a. t0 = Some a \<longrightarrow> a \<le> t"
  shows "(\<exists>m'. run_updates (SpeedMonitor_reset t0 m0) [(x1, y1, t), (x2, y2, t)] = Inr m'
        \<and> pre_recent_point m' =
            Some (Sample (x1 / units_per_mm m0) (y1 / units_per_mm m0) t (PyNum 0))
        \<and> last_calculation_interval m' = Inr (Some 0)
        \<and> xspeed m' = Inl ZeroDivisionError
        \<and> yspeed m' = Inl ZeroDivisionError
        \<and> xyspeed m' = Inr (Some (if x1 = x2 \<and> y1 = y2 then NaN else PosInf)))
     \<and> (\<forall>start pushes m'' e. run_updates (SpeedMonitor_reset start m0) pushes = Inr m'' \<longrightarrow>
            xyspeed m'' \<noteq> Inl e)"
proof -
  let ?u = "units_per_mm m0"
  from same_time_first [OF u t0, of x1 y1] obtain m1
    where s1: "SpeedMonitor_update_xyt x1 y1 t (SpeedMonitor_reset t0 m0) = (Inr (), m1)"
      and rp1: "recent_points m1 = [Sample (x1 / ?u) (y1 / ?u) t (PyNum 0)]"
      and u1: "units_per_mm m1 = ?u" and ci1: "calculation_interval m1 = calculation_interval m0"
    by blast
  from u u1 have u1': "units_per_mm m1 \<noteq> 0" by simp
  from ci ci1 have ci1': "calculation_interval m1 = 0" by simp
  from same_time_second [OF rp1 u1' ci1', of x2 y2] obtain m2
    where s2: "SpeedMonitor_update_xyt x2 y2 t m1 = (Inr (), m2)"
      and rp2: "recent_points m2 =
          [Sample (x2 / ?u) (y2 / ?u) t (NpFloat (sqrt ((x2 / ?u - x1 / ?u)\<^sup>2 + (y2 / ?u - y1 / ?u)\<^sup>2)))]"
      and pre2: "pre_recent_point m2 = Some (Sample (x1 / ?u) (y1 / ?u) t (PyNum 0))"
    unfolding u1 by blast
  from s1 s2 have run: "run_updates (SpeedMonitor_reset t0 m0) [(x1, y1, t), (x2, y2, t)] = Inr m2"
    by simp
  have lci: "last_calculation_interval m2 = Inr (Some 0)"
    by (simp add: last_calculation_interval_def rp2 pre2)
  have xs: "xspeed m2 = Inl ZeroDivisionError" and ys: "yspeed m2 = Inl ZeroDivisionError"
    by (simp_all add: xspeed_def yspeed_def divide_by_interval_def lci rp2 pre2)
  have zero: "sqrt ((x2 / ?u - x1 / ?u)\<^sup>2 + (y2 / ?u - y1 / ?u)\<^sup>2) = 0 \<longleftrightarrow> x1 = x2 \<and> y1 = y2"
    using u by (auto simp: sqrt_sum_squares_zero_iff)
  have pos: "0 \<le> sqrt ((x2 / ?u - x1 / ?u)\<^sup>2 + (y2 / ?u - y1 / ?u)\<^sup>2)"
    by simp
  have xys: "xyspeed m2 = Inr (Some (if x1 = x2 \<and> y1 = y2 then NaN else PosInf))"
  proof (cases "x1 = x2 \<and> y1 = y2")
    case True
    then show ?thesis
      by (simp add: xyspeed_def divide_by_interval_def lci rp2 pre2 py_sum_def)
  next
    case False
    with zero have "sqrt ((x2 / ?u - x1 / ?u)\<^sup>2 + (y2 / ?u - y1 / ?u)\<^sup>2) \<noteq> 0" by blast
    with pos have "0 < sqrt ((x2 / ?u - x1 / ?u)\<^sup>2 + (y2 / ?u - y1 / ?u)\<^sup>2)" by linarith
    with False show ?thesis
      by (simp add: xyspeed_def divide_by_interval_def lci rp2 pre2 py_sum_def
          del: real_sqrt_gt_0_iff real_sqrt_eq_0_iff)
  qed
  have never: "xyspeed m'' \<noteq> Inl e"
    if "run_updates (SpeedMonitor_reset start m0) pushes = Inr m''" for start pushes m'' e
    using history_inv_run [OF that] by (rule xyspeed_no_exception)
  from run pre2 lci xs ys xys never show ?thesis
    by blast
qed

lemma instant_monitor_reset: "SpeedMonitor_reset None instant_monitor = instant_monitor"
  by (simp add: instant_monitor_def SpeedMonitor_reset_def)

lemma instant_run:
  "run_updates instant_monitor [(0, 0, 0), (3, 4, 0)] = Inr instant_after_2"
  by (simp add: instant_after_2_def instant_monitor_def monitor_defs Let_def)

theorem same_time_pushes_witness:
  "units_per_mm instant_monitor \<noteq> 0 \<and> calculation_interval instant_monitor = 0
   \<and> run_updates instant_monitor [(0, 0, 0), (3, 4, 0)] = Inr instant_after_2
   \<and> last_calculation_interval instant_after_2 = Inr (Some 0)
   \<and> xspeed instant_after_2 = Inl ZeroDivisionError
   \<and> yspeed instant_after_2 = Inl ZeroDivisionError"
proof -
  have u: "units_per_mm instant_monitor \<noteq> 0" and ci: "calculation_interval instant_monitor = 0"
    by (simp_all add: instant_monitor_def SpeedMonitor_reset_def)
  have t: "\<forall>a. (None :: real option) = Some a \<longrightarrow> a \<le> 0"
    by simp
  from same_time_pushes [OF u ci t, of 0 0 3 4] obtain m'
    where "run_updates (SpeedMonitor_reset None instant_monitor) [(0, 0, 0), (3, 4, 0)] = Inr m'"
      and q: "last_calculation_interval m' = Inr (Some 0)" "xspeed m' = Inl ZeroDivisionError"
        "yspeed m' = Inl ZeroDivisionError"
    by blast
  then have "run_updates instant_monitor [(0, 0, 0), (3, 4, 0)] = Inr m'"
    by (simp only: instant_monitor_reset)
  with instant_run have "m' = instant_after_2" by simp
  with q u ci instant_run show ?thesis by simp
qed

text \<open>
  The claim as it stands says that \<^verbatim>\<open>xyspeed\<close> raises too. In its own example
  (\<^verbatim>\<open>calculation_interval = 0\<close>, two pushes at the same time) \<^verbatim>\<open>xyspeed\<close> returns
  \<^verbatim>\<open>inf\<close>.
\<close>

theorem xyspeed_zero_interval:
  "run_updates instant_monitor [(0, 0, 0), (3, 4, 0)] = Inr instant_after_2
   \<and> last_calculation_interval instant_after_2 = Inr (Some 0)
   \<and> xyspeed instant_after_2 = Inr (Some PosInf)"
proof -
  have "last_calculation_interval instant_after_2 = Inr (Some 0)"
    "xyspeed instant_after_2 = Inr (Some PosInf)"
    by (simp_all add: instant_after_2_eq monitor_defs)
  with instant_run show ?thesis by (intro conjI)
qed


section \<open>Properties of InstantaneousSpeedValidator\<close>

subsection \<open>The default construction path\<close>

text \<open>
  Claim C9. Constructing an \<^verbatim>\<open>InstantaneousSpeedValidator\<close> without a
  \<^verbatim>\<open>movement_monitor\<close> raises, whatever the other arguments are: the constructor calls
  \<^verbatim>\<open>SpeedMonitor(calculation_interval)\<close> with one argument, and \<^verbatim>\<open>SpeedMonitor\<close>
  requires two.
\<close>

theorem default_construction_raises:
  "InstantaneousSpeedValidator_init ax en min_sp max_sp grace calc_interval None = Inl TypeError"
  by (simp add: InstantaneousSpeedValidator_init_def SpeedMonitor_call_def)

subsection \<open>The instantaneous-speed example\<close>



subsection \<open>The grace period\<close>

text \<open>
  Claim C7. For an enabled validator, an update that returns a failure has left the
  monitor with a \<^verbatim>\<open>time_in_trial\<close> strictly greater than the grace period and with
  \<^verbatim>\<open>last_calculation_interval\<close> available; and an update that the monitor accepts and
  that leaves \<^verbatim>\<open>time_in_trial\<close> at most the grace period returns \<^verbatim>\<open>None\<close> (Pass),
  whatever the speed is.
\<close>

theorem grace_period_respected:
  assumes "enabled v"
  shows "(\<forall>e. fst (InstantaneousSpeedValidator_update_xyt x y t v) = Inr (Some e) \<longrightarrow>
            (\<exists>tt. time_in_trial (speed_monitor (snd (InstantaneousSpeedValidator_update_xyt x y t v))) = Some tt
                  \<and> tt > grace_period v)
          \<and> (\<exists>d. last_calculation_interval
                    (speed_monitor (snd (InstantaneousSpeedValidator_update_xyt x y t v))) = Inr (Some d)))
       \<and> (fst (SpeedMonitor_update_xyt x y t (speed_monitor v)) = Inr () \<longrightarrow>
            (\<forall>tt. time_in_trial (speed_monitor (snd (InstantaneousSpeedValidator_update_xyt x y t v))) = Some tt
                  \<longrightarrow> tt \<le> grace_period v \<longrightarrow>
                  fst (InstantaneousSpeedValidator_update_xyt x y t v) = Inr None))"
proof -
  obtain r mon where upd: "SpeedMonitor_update_xyt x y t (speed_monitor v) = (r, mon)"
    by (cases "SpeedMonitor_update_xyt x y t (speed_monitor v)")
  show ?thesis
  proof (cases r)
    case (Inl e)
    with assms upd show ?thesis
      by (simp add: InstantaneousSpeedValidator_update_xyt_def)
  next
    case (Inr u)
    with assms upd show ?thesis
      by (auto simp: InstantaneousSpeedValidator_update_xyt_def calculate_speed_def Let_def
          split: option.splits sum.splits if_splits)
  qed
qed

text \<open>
  With \<^verbatim>\<open>grace_period = 2\<close>: the sample \<open>(0, 1, 2)\<close> moves at speed 0.5, below
  \<^verbatim>\<open>min_speed = 1\<close>, and passes because \<^verbatim>\<open>time_in_trial\<close> is 2; the sample
  \<open>(0, 1, 3)\<close> instead fails, at \<^verbatim>\<open>time_in_trial = 3\<close>.
\<close>

theorem grace_period_respected_witness:
  "enabled grace_validator
   \<and> fst (SpeedMonitor_update_xyt 0 1 2 (speed_monitor grace_validator)) = Inr ()
   \<and> time_in_trial (speed_monitor (snd (InstantaneousSpeedValidator_update_xyt 0 1 2 grace_validator)))
       = Some 2
   \<and> yspeed (speed_monitor (snd (InstantaneousSpeedValidator_update_xyt 0 1 2 grace_validator)))
       = Inr (Some (Fin 0.5))
   \<and> fst (InstantaneousSpeedValidator_update_xyt 0 1 2 grace_validator) = Inr None
   \<and> fst (InstantaneousSpeedValidator_update_xyt 0 1 3 grace_validator) =
       Inr (Some (ExperimentError ''TooSlowInstantaneous'' ''You moved too slowly''
                    [(''speed'', Some (Fin (1 / 3)))]))
   \<and> time_in_trial (speed_monitor (snd (InstantaneousSpeedValidator_update_xyt 0 1 3 grace_validator)))
       = Some 3"
  using grace_period_respected [of grace_validator 0 1 2]
    grace_period_respected [of grace_validator 0 1 3]
  by (simp add: grace_validator_def validator_defs monitor_defs Let_def
      err_too_slow_def arg_speed_def)



section \<open>Properties of MoveByGradientValidator\<close>

text \<open>
  Claim C1 says that every call of \<^verbatim>\<open>update_xyt\<close> on an enabled validator returns Pass
  or fails with \<^verbatim>\<open>GradientViolation\<close>, and that a backward step beyond
  \<^verbatim>\<open>max_valid_back_movement\<close> that is no wrap-around fails. The validator as the
  constructor leaves it does not: with \<^verbatim>\<open>cyclic=True\<close>, the first call remembers the
  colour 100 and passes, and the second call, a step back by 50 with a tolerance of 0,
  reads \<^verbatim>\<open>_min_available_color\<close>, which was never assigned, and raises
  \<^verbatim>\<open>AttributeError\<close>.
\<close>

theorem fresh_cyclic_validator_raises:
  "fresh_cyclic_verdicts = [Inr None, Inl AttributeError]"
  by (simp add: fresh_cyclic_verdicts_def MoveByGradientValidator_init_def
      validate_attr_not_negative_def MoveByGradientValidator_reset_def
      MoveByGradientValidator_update_xyt_def step_image_def Let_def)

text \<open>
  Once \<^verbatim>\<open>single_color\<close> has been set, the same two calls end as the claim says: the
  second fails with \<^verbatim>\<open>GradientViolation\<close>.
\<close>

lemma single_color_validator_fails:
  "single_color_verdicts =
     [Inr None,
      Inr (Some (ExperimentError ''GradientViolation'' ''You moved in an invalid direction'' []))]"
  by (simp add: single_color_verdicts_def MoveByGradientValidator_init_def
      validate_attr_not_negative_def MoveByGradientValidator_reset_def
      MoveByGradientValidator_update_xyt_def calc_min_max_colors_def step_image_def Let_def
      create_experiment_error_def err_gradient_def cyclic_ratio_def)

lemma calc_min_max_colors_assigned:
  "\<exists>lo hi. min_available_color (calc_min_max_colors mapped v) = Some lo \<and>
           max_available_color (calc_min_max_colors mapped v) = Some hi \<and>
           (lo = None \<longleftrightarrow> hi = None)"
  by (simp add: calc_min_max_colors_def Let_def)

text \<open>
  For an enabled validator whose colour extremes \<^verbatim>\<open>_calc_min_max_colors\<close> has assigned,
  \<^verbatim>\<open>update_xyt\<close> does follow the cases of the claim: with no colour at the location, the
  call passes and forgets the last colour; with no last colour, it passes and remembers
  the current one; otherwise, with \<open>delta\<close> the change of colour in the expected
  direction, it passes and remembers the colour when \<open>delta \<ge> 0\<close>, passes and keeps the
  remembered colour when \<open>- max_valid_back_movement \<le> delta < 0\<close>, passes when the
  gradient is cyclic, the colour range \<open>r\<close> is known and
  \<open>\<bar>delta\<bar> \<ge> cyclic_ratio * (r - \<bar>delta\<bar>)\<close>, and in every remaining case fails with
  \<^verbatim>\<open>GradientViolation\<close>, leaving the validator as it was.
\<close>

lemma gradient_update_after_calc:
  assumes en: "enabled v" and mm: "v = calc_min_max_colors mapped v0"
  shows
   "(get_color_at v x y = None \<longrightarrow>
       MoveByGradientValidator_update_xyt x y v = (Inr None, v\<lparr>last_color := None\<rparr>))
  \<and> (\<forall>c. get_color_at v x y = Some c \<and> last_color v = None \<longrightarrow>
       MoveByGradientValidator_update_xyt x y v = (Inr None, v\<lparr>last_color := Some c\<rparr>))
  \<and> (\<forall>c l delta. get_color_at v x y = Some c \<and> last_color v = Some l \<and>
         delta = (c - l) * (if rgb_should_ascend v then 1 else - 1) \<longrightarrow>
          (0 \<le> delta \<longrightarrow>
             MoveByGradientValidator_update_xyt x y v = (Inr None, v\<lparr>last_color := Some c\<rparr>))
        \<and> (- max_valid_back_movement v \<le> delta \<and> delta < 0 \<longrightarrow>
             MoveByGradientValidator_update_xyt x y v = (Inr None, v))
        \<and> (delta < - max_valid_back_movement v \<and> delta < 0 \<longrightarrow>
             (if cyclic v \<and> (\<exists>r. color_range v = Some r \<and> cyclic_ratio * (r - \<bar>delta\<bar>) \<le> \<bar>delta\<bar>)
              then fst (MoveByGradientValidator_update_xyt x y v) = Inr None
              else MoveByGradientValidator_update_xyt x y v =
                     (Inr (Some (ExperimentError ''GradientViolation''
                                   ''You moved in an invalid direction'' [])), v)))
        \<and> (cyclic v \<and> color_range v = Some 255 \<and> delta = - 250 \<longrightarrow>
             fst (MoveByGradientValidator_update_xyt x y v) = Inr None)
        \<and> (cyclic v \<and> color_range v = Some 255 \<and> delta = - 50 \<and> max_valid_back_movement v < 50 \<longrightarrow>
             MoveByGradientValidator_update_xyt x y v =
               (Inr (Some (ExperimentError ''GradientViolation''
                             ''You moved in an invalid direction'' [])), v)))"
proof -
  from calc_min_max_colors_assigned [of mapped v0] mm obtain lo hi
    where lo: "min_available_color v = Some lo" and hi: "max_available_color v = Some hi"
      and both: "lo = None \<longleftrightarrow> hi = None"
    by auto
  show ?thesis
  proof (cases lo)
    case None
    with both have "hi = None" by simp
    with None en lo hi show ?thesis
      by (auto simp: MoveByGradientValidator_update_xyt_def color_range_def Let_def
          create_experiment_error_def err_gradient_def cyclic_ratio_def
          split: option.splits if_splits)
  next
    case (Some a)
    with both obtain b where "hi = Some b" by auto
    with Some en lo hi show ?thesis
      by (auto simp: MoveByGradientValidator_update_xyt_def color_range_def Let_def
          create_experiment_error_def err_gradient_def cyclic_ratio_def
          split: option.splits if_splits)
  qed
qed

lemma gradient_update_after_calc_example:
  "enabled gradient_validator
   \<and> color_range gradient_validator = Some 255
   \<and> fst (MoveByGradientValidator_update_xyt 0 0 gradient_validator) = Inr None
   \<and> MoveByGradientValidator_update_xyt 1 0 gradient_validator =
       (Inr (Some (ExperimentError ''GradientViolation'' ''You moved in an invalid direction'' [])),
        gradient_validator)
   \<and> MoveByGradientValidator_update_xyt 2 0 gradient_validator =
       (Inr None, gradient_validator\<lparr>last_color := None\<rparr>)"
proof -
  have en: "enabled gradient_validator"
    by (simp add: gradient_validator_def calc_min_max_colors_def)
  have rg: "color_range gradient_validator = Some 255"
    by (simp add: gradient_validator_def calc_min_max_colors_def color_range_def)
  have c0: "get_color_at gradient_validator 0 0 = Some 0"
    and c1: "get_color_at gradient_validator 1 0 = Some 200"
    and c2: "get_color_at gradient_validator 2 0 = None"
    and lc: "last_color gradient_validator = Some 250"
    and asc: "rgb_should_ascend gradient_validator"
    and cyc: "cyclic gradient_validator"
    and mb: "max_valid_back_movement gradient_validator = 10"
    by (simp_all add: gradient_validator_def calc_min_max_colors_def)
  note th = gradient_update_after_calc [OF en gradient_validator_def]
  from th [of 0 0] c0 lc asc cyc rg
  have a: "fst (MoveByGradientValidator_update_xyt 0 0 gradient_validator) = Inr None"
    by simp
  from th [of 1 0] c1 lc asc cyc rg mb
  have b: "MoveByGradientValidator_update_xyt 1 0 gradient_validator =
       (Inr (Some (ExperimentError ''GradientViolation'' ''You moved in an invalid direction'' [])),
        gradient_validator)"
    by simp
  from th [of 2 0] c2
  have c: "MoveByGradientValidator_update_xyt 2 0 gradient_validator =
       (Inr None, gradient_validator\<lparr>last_color := None\<rparr>)"
    by simp
  from en rg a b c show ?thesis by simp
qed


section \<open>Properties of NumberLine\<close>

lemmas line_defs = NumberLine_update_xyt_def NumberLine_reset_def main_line_start_def
  touched_def show_feedback_stim_def last_touched_value_def perpendicular_offset_def

text \<open>
  Claim C3, as amended. With directional locking enabled: the first \<^verbatim>\<open>update_xyt\<close>
  after \<^verbatim>\<open>reset\<close> records the sign of the perpendicular offset as the approach direction
  and reports no touch; from then on, as long as the line has not been touched, an update
  makes \<^verbatim>\<open>touched\<close> true exactly when the offset multiplied by the recorded sign is
  below the touch distance, and keeps the recorded sign; a sample on the same side as the
  initial one does not report a touch provided the touch distance is not positive; and
  once the line is touched, an update returns at once and leaves the whole state as it
  is.
\<close>

theorem line_touch_directioned:
  assumes "touch_directioned nl"
  shows
   "fst (NumberLine_update_xyt x y (NumberLine_reset t0 nl)) = Inr ()
  \<and> initial_mouse_dir (snd (NumberLine_update_xyt x y (NumberLine_reset t0 nl))) =
      Some (sgn (perpendicular_offset nl x y))
  \<and> \<not> touched (snd (NumberLine_update_xyt x y (NumberLine_reset t0 nl)))
  \<and> (\<forall>d. initial_mouse_dir nl = Some d \<and> \<not> touched nl \<longrightarrow>
        (touched (snd (NumberLine_update_xyt x y nl)) \<longleftrightarrow>
           perpendicular_offset nl x y * d < touch_distance nl)
        \<and> initial_mouse_dir (snd (NumberLine_update_xyt x y nl)) = Some d)
  \<and> (\<forall>d. initial_mouse_dir nl = Some d \<and> \<not> touched nl \<and>
          sgn (perpendicular_offset nl x y) = d \<and> touch_distance nl \<le> 0 \<longrightarrow>
        \<not> touched (snd (NumberLine_update_xyt x y nl)))
  \<and> (touched nl \<longrightarrow> NumberLine_update_xyt x y nl = (Inr (), nl))"
proof -
  have first: "fst (NumberLine_update_xyt x y (NumberLine_reset t0 nl)) = Inr ()
      \<and> initial_mouse_dir (snd (NumberLine_update_xyt x y (NumberLine_reset t0 nl))) =
          Some (sgn (perpendicular_offset nl x y))
      \<and> \<not> touched (snd (NumberLine_update_xyt x y (NumberLine_reset t0 nl)))"
    using assms by (simp add: line_defs Let_def)
  have later: "(touched (snd (NumberLine_update_xyt x y nl)) \<longleftrightarrow>
           perpendicular_offset nl x y * d < touch_distance nl)
        \<and> initial_mouse_dir (snd (NumberLine_update_xyt x y nl)) = Some d"
    if "initial_mouse_dir nl = Some d" "\<not> touched nl" for d
    using assms that
    by (auto simp: line_defs Let_def split: option.splits sum.splits if_splits prod.splits)
  have same: "\<not> touched (snd (NumberLine_update_xyt x y nl))"
    if d: "initial_mouse_dir nl = Some d" "\<not> touched nl"
      and side: "sgn (perpendicular_offset nl x y) = d" and td: "touch_distance nl \<le> 0" for d
  proof -
    have "perpendicular_offset nl x y * d = \<bar>perpendicular_offset nl x y\<bar>"
      using side by (simp add: abs_sgn mult.commute)
    then have "\<not> perpendicular_offset nl x y * d < touch_distance nl"
      using td by simp
    with later [OF d] show ?thesis by simp
  qed
  have frozen: "NumberLine_update_xyt x y nl = (Inr (), nl)" if "touched nl"
    using that by (simp add: NumberLine_update_xyt_def touched_def)
  from first later same frozen show ?thesis by blast
qed

text \<open>
  On \<open>line_0\<close> (touch distance 0): the first sample, 100 below the line, records the
  sign \<open>1\<close>; the second, 3 below the line, is on the same side and does not touch; the
  third, 2 above the line, touches at the coordinate 7; a fourth changes nothing.
\<close>

theorem line_touch_directioned_witness:
  "touch_directioned line_0
   \<and> initial_mouse_dir line_0_first = Some 1 \<and> \<not> touched line_0_first
   \<and> \<not> touched line_0_second
   \<and> touched line_0_third \<and> last_touched_coord line_0_third = Some 7
   \<and> NumberLine_update_xyt 50 50 line_0_third = (Inr (), line_0_third)"
  using line_touch_directioned [of line_0 0 "- 100" None]
    line_touch_directioned [of line_0_first 0 "- 3"]
    line_touch_directioned [of line_0_second 7 2]
    line_touch_directioned [of line_0_third 50 50]
  by (simp add: line_0_third_def line_0_second_def line_0_first_def line_0_def line_defs Let_def)

text \<open>
  The claim as it stands says that a sample on the same side as the initial one never
  reports a touch. With a touch distance of 5, the sample \<open>(0, -3)\<close>, 3 below the line
  like the initial sample \<open>(0, -100)\<close>, is closer than the touch distance and touches.
\<close>

theorem same_side_touch:
  "initial_mouse_dir line_5_first = Some 1
   \<and> \<not> touched line_5_first
   \<and> sgn (perpendicular_offset line_5_first 0 (- 3)) = 1
   \<and> touched (snd (NumberLine_update_xyt 0 (- 3) line_5_first))"
  by (simp add: line_5_first_def line_5_def line_0_def line_defs Let_def)

end
